theory Spec2Isabelle
  imports Complex_Main "HOL-Library.Sublist" "HOL-Library.AList"
begin

section \<open>Exceptions\<close>

text \<open>
  The Python exceptions raised by the modelled functions. A function that can raise
  returns \<open>error + 'a\<close>, with \<open>Inl\<close> for the exception.
\<close>

datatype error =
  ValueError | TypeError | KeyError | AssertionError | AttributeError | IndexError

section \<open>Networks.build (\<^verbatim>\<open>_networks.py\<close>)\<close>

text \<open>
  The dataclass \<^verbatim>\<open>Networks\<close>. \<^verbatim>\<open>Network\<close> and \<^verbatim>\<open>Demographics\<close> are not part
  of the modelled sources: a network is a value of type \<open>'n\<close>, a \<^verbatim>\<open>Demographics\<close> is
  the list of its demographics (what \<^verbatim>\<open>len\<close> and indexing see), and
  \<^verbatim>\<open>Network.specialise\<close> is a parameter that may raise.
\<close>

record ('n, 'd) networks =
  overall :: "'n option"
  subnets :: "'n list"
  demographics :: "'d list option"

text \<open>
  \<^verbatim>\<open>for i in range(0, len(demographics)):
      networks.append(network.specialise(demographics[i]))\<close>
\<close>

fun specialise_each :: "('d \<Rightarrow> error + 'n) \<Rightarrow> 'd list \<Rightarrow> 'n list \<Rightarrow> error + 'n list" where
  "specialise_each sp [] nets = Inr nets"
| "specialise_each sp (d # ds) nets =
     (case sp d of Inl e \<Rightarrow> Inl e | Inr n \<Rightarrow> specialise_each sp ds (nets @ [n]))"

definition build ::
  "('n \<Rightarrow> 'd \<Rightarrow> error + 'n) \<Rightarrow> 'n \<Rightarrow> 'd list option \<Rightarrow> error + ('n, 'd) networks" where
  "build specialise network dems =
     (case dems of
        None \<Rightarrow> Inl ValueError
      | Some ds \<Rightarrow>
          if length ds < 2 then Inl ValueError
          else (case specialise_each (specialise network) ds [] of
                  Inl e \<Rightarrow> Inl e
                | Inr nets \<Rightarrow>
                    Inr \<lparr>overall = Some network, subnets = nets, demographics = Some ds\<rparr>))"

section \<open>get_functions (\<^verbatim>\<open>utils/_get_functions.py\<close>)\<close>

text \<open>
  The keyword bundle handed to every plugin. The network, population, infections,
  random number generators and profiler are opaque to \<^verbatim>\<open>get_functions\<close>.
\<close>

record ('net, 'pop, 'inf, 'rng, 'prof) kwargs =
  kw_stage :: string
  kw_network :: 'net
  kw_population :: 'pop
  kw_infections :: 'inf
  kw_rngs :: 'rng
  kw_nthreads :: int
  kw_profiler :: 'prof

definition stages :: "string list" where
  "stages = [''initialise'', ''setup'', ''foi'', ''infect'', ''analyse'', ''finalise'']"

text \<open>
  A plugin is a Python callable: it may raise, and it may have effects. It is a
  function from the keyword bundle and the world before the call (type \<open>'w\<close>) to its
  result and the world after it, so that the order of the four calls is visible.
  The expression \<^verbatim>\<open>mover(**kwargs) + iterator(**kwargs) + mixer(**kwargs) +
  extractor(**kwargs)\<close> calls its operands from left to right; an exception ends the
  evaluation with the world as the raising call left it.
\<close>

type_synonym ('k, 'f, 'w) plugin = "'k \<Rightarrow> 'w \<Rightarrow> (error + 'f list) \<times> 'w"

definition get_functions ::
  "string \<Rightarrow> 'net \<Rightarrow> 'pop \<Rightarrow> 'inf \<Rightarrow> 'out \<Rightarrow> 'ws \<Rightarrow>
   (('net, 'pop, 'inf, 'rng, 'prof) kwargs, 'f, 'w) plugin \<Rightarrow>
   (('net, 'pop, 'inf, 'rng, 'prof) kwargs, 'f, 'w) plugin \<Rightarrow>
   (('net, 'pop, 'inf, 'rng, 'prof) kwargs, 'f, 'w) plugin \<Rightarrow>
   (('net, 'pop, 'inf, 'rng, 'prof) kwargs, 'f, 'w) plugin \<Rightarrow>
   'rng \<Rightarrow> int \<Rightarrow> 'prof \<Rightarrow> 'w \<Rightarrow> (error + 'f list) \<times> 'w" where
  "get_functions stage network population infections output_dir workspace
       iterator extractor mixer mover rngs nthreads profiler w =
     (if stage \<notin> set stages then (Inl ValueError, w)
      else
        let kwargs = \<lparr>kw_stage = stage, kw_network = network,
                      kw_population = population, kw_infections = infections,
                      kw_rngs = rngs, kw_nthreads = nthreads, kw_profiler = profiler\<rparr>
        in case mover kwargs w of
             (Inl e, w1) \<Rightarrow> (Inl e, w1)
           | (Inr fm, w1) \<Rightarrow>
               (case iterator kwargs w1 of
                  (Inl e, w2) \<Rightarrow> (Inl e, w2)
                | (Inr fi, w2) \<Rightarrow>
                    (case mixer kwargs w2 of
                       (Inl e, w3) \<Rightarrow> (Inl e, w3)
                     | (Inr fx, w3) \<Rightarrow>
                         (case extractor kwargs w3 of
                            (Inl e, w4) \<Rightarrow> (Inl e, w4)
                          | (Inr fe, w4) \<Rightarrow> (Inr (((fm @ fi) @ fx) @ fe), w4)))))"

section \<open>Ward (\<^verbatim>\<open>_ward.py\<close>)\<close>

subsection \<open>Dictionaries\<close>

text \<open>
  A Python dict keeps its keys in insertion order, and \<^verbatim>\<open>list(d.keys())\<close> reads them
  in that order: a dict is an association list. Assigning to a key that is present
  keeps its place, assigning to a new key appends it (\<^const>\<open>AList.update\<close>);
  \<^verbatim>\<open>del d[k]\<close> is \<^const>\<open>AList.delete\<close>.
\<close>

type_synonym ('k, 'v) dict = "('k \<times> 'v) list"

definition dict_keys :: "('k, 'v) dict \<Rightarrow> 'k list" where
  "dict_keys d = map fst d"

definition dict_values :: "('k, 'v) dict \<Rightarrow> 'v list" where
  "dict_values d = map snd d"

definition dict_contains :: "('k, 'v) dict \<Rightarrow> 'k \<Rightarrow> bool" where
  "dict_contains d k = (map_of d k \<noteq> None)"

subsection \<open>The Ward object\<close>

text \<open>
  \<^verbatim>\<open>WardInfo\<close> is not part of the modelled sources: it is a type \<open>'i\<close>, compared with
  \<open>=\<close>, and the operations of it that \<^verbatim>\<open>Ward\<close> calls are parameters:
  \<^verbatim>\<open>WardInfo()\<close>, \<^verbatim>\<open>is_null\<close>, \<^verbatim>\<open>to_data\<close>, \<^verbatim>\<open>from_data\<close>, and the empty
  dictionary that \<^verbatim>\<open>data.get("info", {})\<close> hands to \<^verbatim>\<open>from_data\<close>.
\<close>

record ('i, 'j) wardinfo_ops =
  new_info :: 'i
  is_null :: "'i \<Rightarrow> bool"
  info_to_data :: "'i \<Rightarrow> 'j"
  info_from_data :: "'j \<Rightarrow> 'i"
  empty_info_data :: 'j

text \<open>A key of the workers and players maps: an integer id, or a WardInfo.\<close>

datatype 'i dest = Id int | Info 'i

fun is_int :: "'i dest \<Rightarrow> bool" where
  "is_int (Id _) = True"
| "is_int (Info _) = False"

text \<open>
  \<^verbatim>\<open>_pos\<close> is the empty dict, \<^verbatim>\<open>{"x":.., "y":..}\<close> or \<^verbatim>\<open>{"lat":.., "long":..}\<close>:
  \<^verbatim>\<open>set_position\<close> is all that assigns it.
\<close>

datatype position = No_Pos | XY real real | Lat_Long real real

text \<open>
  The attributes of a Ward whose constructor ran to its end. Floats are real numbers:
  rounding is not modelled. A Ward built with no id and a null info has none of
  the attributes after \<^verbatim>\<open>_info\<close> (the constructor returns early); where such an
  object can arise it is the value \<open>None\<close> of \<open>'i ward option\<close>.
\<close>

record 'i ward =
  ward_id :: "int option"
  info :: 'i
  workers :: "('i dest, int) dict"
  players :: "('i dest, real) dict"
  player_total :: real
  num_workers :: int
  num_players :: int
  pos :: position
  auto_assign_players :: bool

definition as_positive_integer :: "int \<Rightarrow> bool \<Rightarrow> error + int" where
  "as_positive_integer number zero_allowed =
     (if number < 0 then Inl ValueError
      else if number = 0 \<and> \<not> zero_allowed then Inl ValueError
      else Inr number)"

definition as_positive_float :: "real \<Rightarrow> error + real" where
  "as_positive_float number = (if number < 0 then Inl ValueError else Inr number)"

text \<open>
  \<^verbatim>\<open>Ward.__init__\<close> with \<^verbatim>\<open>name\<close>, \<^verbatim>\<open>code\<close>, \<^verbatim>\<open>authority\<close> and \<^verbatim>\<open>region\<close> left
  at None.
\<close>

definition init_ward ::
  "('i, 'j) wardinfo_ops \<Rightarrow> int option \<Rightarrow> 'i option \<Rightarrow> bool \<Rightarrow> error + 'i ward option" where
  "init_ward ops id_arg info_arg auto_assign =
     (case (case id_arg of None \<Rightarrow> Inr None
            | Some i \<Rightarrow> (case as_positive_integer i False of
                          Inl e \<Rightarrow> Inl e | Inr n \<Rightarrow> Inr (Some n))) of
        Inl e \<Rightarrow> Inl e
      | Inr wid \<Rightarrow>
          let inf = (case info_arg of Some i \<Rightarrow> i | None \<Rightarrow> new_info ops)
          in if wid = None \<and> is_null ops inf then Inr None
             else Inr (Some \<lparr>ward_id = wid, info = inf, workers = [], players = [],
                              player_total = 1, num_workers = 0, num_players = 0,
                              pos = No_Pos, auto_assign_players = auto_assign\<rparr>))"

definition assert_sane :: "'i ward \<Rightarrow> error + unit" where
  "assert_sane self =
     (if \<not> (case ward_id self of None \<Rightarrow> False | Some i \<Rightarrow> i > 0) then Inl AssertionError
      else if \<bar>(sum_list (dict_values (players self)) + player_total self) - 1\<bar> > 1 / 1000000
        then Inl AssertionError
      else if \<bar>real_of_int (sum_list (dict_values (workers self))) - real_of_int (num_workers self)\<bar>
                > 1 / 1000000
        then Inl AssertionError
      else Inr ())"

text \<open>
  The destination argument of the operations below: None, an integer, a WardInfo, or
  another Ward (of which \<^verbatim>\<open>id()\<close> and \<^verbatim>\<open>_info\<close> are read).
\<close>

datatype 'i destination =
  Dest_None | Dest_Id int | Dest_Info 'i | Dest_Ward "int option" 'i

definition resolve_destination ::
  "('i, 'j) wardinfo_ops \<Rightarrow> 'i ward \<Rightarrow> 'i destination \<Rightarrow> error + 'i dest" where
  "resolve_destination ops self destination =
     (case (case destination of
              Dest_None \<Rightarrow>
                (case ward_id self of
                   None \<Rightarrow> if is_null ops (info self) then Inl ValueError
                           else Inr (Info (info self))
                 | Some i \<Rightarrow> Inr (Id i))
            | Dest_Ward did dinfo \<Rightarrow>
                (case did of
                   None \<Rightarrow>
                     (case ward_id self of
                        Some i \<Rightarrow> if dinfo = info self then Inr (Id i) else Inr (Info dinfo)
                      | None \<Rightarrow> Inr (Info dinfo))
                 | Some d \<Rightarrow>
                     if Some d = ward_id self \<and> info self \<noteq> dinfo then Inl ValueError
                     else Inr (Id d))
            | Dest_Id d \<Rightarrow> Inr (Id d)
            | Dest_Info i \<Rightarrow> Inr (Info i)) of
        Inl e \<Rightarrow> Inl e
      | Inr (Info i) \<Rightarrow> Inr (Info i)
      | Inr (Id d) \<Rightarrow>
          (case as_positive_integer d False of Inl e \<Rightarrow> Inl e | Inr n \<Rightarrow> Inr (Id n)))"

definition add_workers ::
  "('i, 'j) wardinfo_ops \<Rightarrow> 'i ward \<Rightarrow> int \<Rightarrow> 'i destination \<Rightarrow> error + 'i ward" where
  "add_workers ops self number destination =
     (case resolve_destination ops self destination of
        Inl e \<Rightarrow> Inl e
      | Inr dst \<Rightarrow>
          (case as_positive_integer number True of
             Inl e \<Rightarrow> Inl e
           | Inr n \<Rightarrow>
               let ws = (if \<not> dict_contains (workers self) dst
                         then AList.update dst 0 (workers self) else workers self)
               in (case map_of ws dst of
                     None \<Rightarrow> Inl KeyError
                   | Some c \<Rightarrow>
                       Inr (self\<lparr>workers := AList.update dst (c + n) ws,
                                 num_workers := num_workers self + n\<rparr>))))"

text \<open>
  In the last branch the source subtracts the number from the dict itself
  (\<^verbatim>\<open>self._workers -= number\<close>): a dict and an int have no \<^verbatim>\<open>-=\<close>, so the statement
  raises TypeError, before anything is changed.
\<close>

definition subtract_workers ::
  "('i, 'j) wardinfo_ops \<Rightarrow> 'i ward \<Rightarrow> int \<Rightarrow> 'i destination \<Rightarrow> error + 'i ward" where
  "subtract_workers ops self number destination =
     (case resolve_destination ops self destination of
        Inl e \<Rightarrow> Inl e
      | Inr dst \<Rightarrow>
          (case as_positive_integer number True of
             Inl e \<Rightarrow> Inl e
           | Inr n \<Rightarrow>
               (case map_of (workers self) dst of
                  None \<Rightarrow> Inr self
                | Some c \<Rightarrow>
                    if n \<ge> c
                    then Inr (self\<lparr>num_workers := num_workers self - c,
                                   workers := AList.delete dst (workers self)\<rparr>)
                    else Inl TypeError)))"

definition tiny :: real where
  "tiny = 1 / 10000000000"

definition add_player_weight ::
  "('i, 'j) wardinfo_ops \<Rightarrow> 'i ward \<Rightarrow> real \<Rightarrow> 'i destination \<Rightarrow> error + 'i ward" where
  "add_player_weight ops self weight destination =
     (case as_positive_float weight of
        Inl e \<Rightarrow> Inl e
      | Inr w0 \<Rightarrow>
          (case resolve_destination ops self destination of
             Inl e \<Rightarrow> Inl e
           | Inr dst \<Rightarrow>
               if w0 < tiny then Inr self
               else
                 let w = (if \<bar>w0 - player_total self\<bar> < tiny then player_total self else w0)
                 in if w > player_total self then Inl ValueError
                    else
                      let ps = (if \<not> dict_contains (players self) dst
                                then AList.update dst 0 (players self) else players self)
                      in (case map_of ps dst of
                            None \<Rightarrow> Inl KeyError
                          | Some c \<Rightarrow>
                              let pt = player_total self - w
                              in Inr (self\<lparr>players := AList.update dst (c + w) ps,
                                        player_total := (if pt < tiny then 0 else pt)\<rparr>))))"

definition subtract_player_weight ::
  "('i, 'j) wardinfo_ops \<Rightarrow> 'i ward \<Rightarrow> real \<Rightarrow> 'i destination \<Rightarrow> error + 'i ward" where
  "subtract_player_weight ops self weight destination =
     (case as_positive_float weight of
        Inl e \<Rightarrow> Inl e
      | Inr w0 \<Rightarrow>
          (case resolve_destination ops self destination of
             Inl e \<Rightarrow> Inl e
           | Inr dst \<Rightarrow>
               if w0 < tiny then Inr self
               else
                 (case map_of (players self) dst of
                    None \<Rightarrow> Inr self
                  | Some c \<Rightarrow>
                      let w = (if w0 > c then c else w0);
                          pt = player_total self + w
                      in Inr (self\<lparr>player_total := (if \<bar>pt - 1\<bar> < tiny then 1 else pt),
                                    players := AList.delete dst (players self)\<rparr>))))"

subsection \<open>Resolving links\<close>

text \<open>
  \<^verbatim>\<open>Wards\<close> is not part of the modelled sources. \<^verbatim>\<open>Ward.resolve\<close> asks it two
  things: \<^verbatim>\<open>key in wards\<close> and \<^verbatim>\<open>wards.index(key)\<close>, which may raise. An argument
  that is not a \<^verbatim>\<open>Wards\<close> object is \<open>Not_Wards\<close>.
\<close>

record 'i wards =
  wards_contains :: "'i \<Rightarrow> bool"
  wards_index :: "'i \<Rightarrow> error + int"

datatype 'i wards_arg = Wards "'i wards" | Not_Wards

text \<open>
  One of the two loops of \<^verbatim>\<open>resolve\<close>, over the keys the dict had when the loop
  started. An exception leaves the Ward with the keys rewritten so far; the model
  returns the exception only.
\<close>

fun resolve_keys :: "'i wards \<Rightarrow> 'i dest list \<Rightarrow> ('i dest, 'v) dict \<Rightarrow> error + ('i dest, 'v) dict" where
  "resolve_keys W [] d = Inr d"
| "resolve_keys W (Id n # keys) d = resolve_keys W keys d"
| "resolve_keys W (Info k # keys) d =
     (if wards_contains W k
      then (case wards_index W k of
              Inl e \<Rightarrow> Inl e
            | Inr idx \<Rightarrow>
                if dict_contains d (Id idx) then Inl KeyError
                else (case map_of d (Info k) of
                        None \<Rightarrow> Inl KeyError
                      | Some v \<Rightarrow>
                          resolve_keys W keys (AList.delete (Info k) (AList.update (Id idx) v d))))
      else resolve_keys W keys d)"

definition resolve :: "'i ward \<Rightarrow> 'i wards_arg \<Rightarrow> error + 'i ward" where
  "resolve self arg =
     (case arg of
        Not_Wards \<Rightarrow> Inl TypeError
      | Wards W \<Rightarrow>
          (case resolve_keys W (dict_keys (workers self)) (workers self) of
             Inl e \<Rightarrow> Inl e
           | Inr ws \<Rightarrow>
               (case resolve_keys W (dict_keys (players self)) (players self) of
                  Inl e \<Rightarrow> Inl e
                | Inr ps \<Rightarrow> Inr (self\<lparr>workers := ws, players := ps\<rparr>))))"

definition is_resolved :: "'i ward \<Rightarrow> bool" where
  "is_resolved self =
     (if ward_id self = None then False
      else if \<not> list_all is_int (dict_keys (workers self)) then False
      else if \<not> list_all is_int (dict_keys (players self)) then False
      else True)"

subsection \<open>Worker and player lists\<close>

fun key_int :: "'i dest option \<Rightarrow> int option" where
  "key_int (Some (Id n)) = Some n"
| "key_int _ = None"

text \<open>
  \<^verbatim>\<open>keys.sort()\<close> followed by the loop that raises KeyError at a key that is not an
  int. The list may hold None (the id of a Ward without id, appended by
  \<^verbatim>\<open>get_player_lists\<close>). Integers sort; with two or more keys of which one is not
  an integer, sorting compares it with another key and raises TypeError
  (\<^verbatim>\<open>WardInfo\<close> taken to define no ordering); a single key that is not an integer
  reaches the loop. The arrays of \<^verbatim>\<open>utils._array\<close> are lists: the range of their
  element type is not modelled.
\<close>

definition sorted_int_keys :: "'i dest option list \<Rightarrow> error + int list" where
  "sorted_int_keys keys =
     (if list_all (\<lambda>k. key_int k \<noteq> None) keys then Inr (sort (List.map_filter key_int keys))
      else if length keys \<ge> 2 then Inl TypeError
      else Inl KeyError)"

fun worker_pops :: "('i dest, int) dict \<Rightarrow> int list \<Rightarrow> error + int list" where
  "worker_pops d [] = Inr []"
| "worker_pops d (k # ks) =
     (case map_of d (Id k) of
        None \<Rightarrow> Inl KeyError
      | Some c \<Rightarrow> (case worker_pops d ks of Inl e \<Rightarrow> Inl e | Inr cs \<Rightarrow> Inr (c # cs)))"

definition get_worker_lists :: "'i ward \<Rightarrow> error + (int list \<times> int list)" where
  "get_worker_lists self =
     (case sorted_int_keys (map Some (dict_keys (workers self))) of
        Inl e \<Rightarrow> Inl e
      | Inr keys \<Rightarrow>
          (case worker_pops (workers self) keys of
             Inl e \<Rightarrow> Inl e
           | Inr pops \<Rightarrow> Inr (keys, pops)))"

definition get_player_lists :: "'i ward \<Rightarrow> bool \<Rightarrow> error + (int list \<times> real list)" where
  "get_player_lists self no_auto_assign =
     (let keys = map Some (dict_keys (players self));
          auto_assign = (\<not> no_auto_assign \<and> auto_assign_players self);
          self_key = map_option Id (ward_id self);
          keys = (if auto_assign \<and> self_key \<notin> set keys then keys @ [self_key] else keys)
      in case sorted_int_keys keys of
           Inl e \<Rightarrow> Inl e
         | Inr ks \<Rightarrow>
             Inr (ks, map (\<lambda>key.
                        let weight = (case map_of (players self) (Id key) of
                                        None \<Rightarrow> 0 | Some v \<Rightarrow> v)
                        in if auto_assign \<and> Some key = ward_id self
                           then weight + player_total self else weight) ks))"

section \<open>mix_custom (\<^verbatim>\<open>mixers/_mix_custom.py\<close>)\<close>

text \<open>
  The loop \<^verbatim>\<open>for i in range(len(core_funcs)-1, -1, -1)\<close>: the first argument after
  the list counts the indices still to visit, so the index visited is one less.
  \<^verbatim>\<open>custom_funcs.insert(0, f)\<close> puts \<open>f\<close> at the front of the list, and the test
  \<^verbatim>\<open>not in\<close> sees the functions inserted so far.
\<close>

fun insert_core :: "'f list \<Rightarrow> nat \<Rightarrow> 'f list \<Rightarrow> 'f list" where
  "insert_core core_funcs 0 custom_funcs = custom_funcs"
| "insert_core core_funcs (Suc i) custom_funcs =
     insert_core core_funcs i
       (if core_funcs ! i \<notin> set custom_funcs then core_funcs ! i # custom_funcs
        else custom_funcs)"

text \<open>
  \<^verbatim>\<open>merge_core\<close> is not part of the modelled sources: it is a parameter, as the custom
  function is. Both take the keyword arguments \<open>kwargs\<close> and, when it is passed, the
  keyword \<^verbatim>\<open>setup\<close>; both return a list of functions or None. Functions are values
  of a type \<open>'f\<close> compared with \<open>=\<close>. \<open>needs_setup\<close> is
  \<^verbatim>\<open>mixer_needs_setup(custom_function)\<close>.
\<close>

definition mix_custom ::
  "(bool option \<Rightarrow> 'k \<Rightarrow> 'f list option) \<Rightarrow> (bool option \<Rightarrow> 'k \<Rightarrow> 'f list option) \<Rightarrow>
   bool \<Rightarrow> bool \<Rightarrow> 'k \<Rightarrow> 'f list" where
  "mix_custom merge_core custom_function needs_setup setup kwargs =
     (let core_funcs = (if setup then merge_core (Some setup) kwargs
                        else merge_core None kwargs);
          custom_funcs = (if setup
                          then (if needs_setup then custom_function (Some setup) kwargs
                                else None)
                          else custom_function None kwargs)
      in if (case core_funcs of None \<Rightarrow> True | Some c \<Rightarrow> length c = 0)
         then (case custom_funcs of None \<Rightarrow> [] | Some cu \<Rightarrow> cu)
         else if (case custom_funcs of None \<Rightarrow> True | Some cu \<Rightarrow> length cu = 0)
         then (case core_funcs of None \<Rightarrow> [] | Some c \<Rightarrow> c)
         else (case (core_funcs, custom_funcs) of
                 (Some c, Some cu) \<Rightarrow> insert_core c (length c) cu
               | _ \<Rightarrow> []))"

section \<open>advance_additional (\<^verbatim>\<open>iterators/_advance_additional.py\<close>)\<close>

text \<open>
  What \<^verbatim>\<open>advance_additional\<close> reads and writes: the array \<^verbatim>\<open>nodes.play_suscept\<close> of
  the network, the arrays \<^verbatim>\<open>infections.play\<close>, and the console. The element type of
  \<^verbatim>\<open>play_suscept\<close> is declared outside the modelled sources: it is any ordered ring
  of numbers (the integers, the reals).
\<close>

datatype message = Warning | Print

record 'a seeding =
  play_suscept :: "'a list"
  play_infections :: "int list list"
  console :: "message list"

text \<open>Indexing a Python sequence: a negative index counts from the end.\<close>

definition py_index :: "'b list \<Rightarrow> int \<Rightarrow> error + nat" where
  "py_index xs i =
     (let n = int (length xs); j = (if i < 0 then n + i else i)
      in if 0 \<le> j \<and> j < n then Inr (nat j) else Inl IndexError)"

text \<open>
  The body of the \<^verbatim>\<open>try\<close> for a single \<^verbatim>\<open>Network\<close>. \<^verbatim>\<open>Network.get_node_index\<close> is a
  parameter that may raise. Every exception is reported and raised again.
\<close>

definition seed_ward ::
  "('w \<Rightarrow> error + int) \<Rightarrow> 'w \<Rightarrow> int \<Rightarrow> ('a::linordered_idom) seeding \<Rightarrow> error + 'a seeding" where
  "seed_ward get_node_index ward num st =
     (case get_node_index ward of
        Inl e \<Rightarrow> Inl e
      | Inr w \<Rightarrow>
          (case py_index (play_suscept st) w of
             Inl e \<Rightarrow> Inl e
           | Inr i \<Rightarrow>
               if play_suscept st ! i < of_int num
               then Inr (st\<lparr>console := console st @ [Warning]\<rparr>)
               else
                 let st1 = st\<lparr>play_suscept :=
                                 (play_suscept st)[i := play_suscept st ! i - of_int num],
                               console := console st @ [Print]\<rparr>
                 in (case play_infections st1 of
                       [] \<Rightarrow> Inl IndexError
                     | row # rows \<Rightarrow>
                         (case py_index row w of
                            Inl e \<Rightarrow> Inl e
                          | Inr j \<Rightarrow>
                              Inr (st1\<lparr>play_infections := row[j := row ! j + num] # rows\<rparr>)))))"

text \<open>
  The network argument: a single \<^verbatim>\<open>Network\<close>, or a \<^verbatim>\<open>Networks\<close> with a number of
  subnets. For a \<^verbatim>\<open>Networks\<close> the source looks the demographic up
  (\<^verbatim>\<open>demographics.get_index\<close>, a parameter), takes that subnet, and reads
  \<^verbatim>\<open>infections.subinfs\<close>, an attribute that the class \<^verbatim>\<open>Infections\<close> of
  \<^verbatim>\<open>_infections.py\<close> does not have: AttributeError, raised outside the \<^verbatim>\<open>try\<close>.
\<close>

datatype network_arg = Network | Networks nat

definition seed_networks ::
  "('dm \<Rightarrow> error + int) \<Rightarrow> nat \<Rightarrow> 'dm option \<Rightarrow> error + 'a seeding" where
  "seed_networks get_index nsubnets demographic =
     (case (case demographic of None \<Rightarrow> Inr 0 | Some d \<Rightarrow> get_index d) of
        Inl e \<Rightarrow> Inl e
      | Inr dm \<Rightarrow>
          (case py_index (replicate nsubnets ()) dm of
             Inl e \<Rightarrow> Inl e
           | Inr s \<Rightarrow> Inl AttributeError))"

text \<open>
  The loop over the seeds \<open>(day, ward, number, demographic)\<close> that
  \<^verbatim>\<open>setup_additional_seeds\<close> has stored on the network, on the day \<open>day\<close> of the
  population.
\<close>

fun advance_additional ::
  "('w \<Rightarrow> error + int) \<Rightarrow> ('dm \<Rightarrow> error + int) \<Rightarrow> network_arg \<Rightarrow> int \<Rightarrow>
   (int \<times> 'w \<times> int \<times> 'dm option) list \<Rightarrow> ('a::linordered_idom) seeding \<Rightarrow> error + 'a seeding" where
  "advance_additional get_node_index get_index network day [] st = Inr st"
| "advance_additional get_node_index get_index network day ((sday, ward, num, dem) # seeds) st =
     (if sday = day
      then (case (case network of
                    Networks n \<Rightarrow> seed_networks get_index n dem
                  | Network \<Rightarrow> seed_ward get_node_index ward num st) of
              Inl e \<Rightarrow> Inl e
            | Inr st' \<Rightarrow> advance_additional get_node_index get_index network day seeds st')
      else advance_additional get_node_index get_index network day seeds st)"

section \<open>A concrete WardInfo\<close>

text \<open>
  The examples below need a \<^verbatim>\<open>WardInfo\<close>: there it is the name of the ward, null when
  the name is empty, and it serialises to itself.
\<close>

definition string_ops :: "(string, string) wardinfo_ops" where
  "string_ops = \<lparr>new_info = '''', is_null = (\<lambda>i. i = ''''), info_to_data = (\<lambda>i. i),
                 info_from_data = (\<lambda>j. j), empty_info_data = ''''\<rparr>"

section \<open>Properties of Networks.build\<close>

lemma specialise_each_Inr:
  "specialise_each sp ds nets = Inr r \<Longrightarrow>
     \<exists>ns. r = nets @ ns \<and> length ns = length ds \<and> (\<forall>i<length ds. sp (ds ! i) = Inr (ns ! i))"
proof (induction ds arbitrary: nets)
  case Nil
  then show ?case by simp
next
  case (Cons d ds)
  from Cons.prems obtain n where n: "sp d = Inr n"
    and rest: "specialise_each sp ds (nets @ [n]) = Inr r"
    by (auto split: sum.splits)
  from Cons.IH [OF rest] obtain ns where ns: "r = (nets @ [n]) @ ns"
    "length ns = length ds" "\<forall>i<length ds. sp (ds ! i) = Inr (ns ! i)"
    by blast
  have "\<forall>i<length (d # ds). sp ((d # ds) ! i) = Inr ((n # ns) ! i)"
    using n ns(3) by (auto simp: nth_Cons split: nat.splits)
  with ns(1,2) show ?case
    by (intro exI [of _ "n # ns"]) simp
qed

lemma specialise_each_total:
  "\<forall>d\<in>set ds. \<exists>n. sp d = Inr n \<Longrightarrow> \<exists>r. specialise_each sp ds nets = Inr r"
proof (induction ds arbitrary: nets)
  case Nil
  then show ?case by simp
next
  case (Cons d ds)
  then obtain n where "sp d = Inr n" by auto
  with Cons show ?case by simp
qed

text \<open>
  Claim C10. \<^verbatim>\<open>Networks.build(network, demographics)\<close> raises a ValueError whenever
  \<^verbatim>\<open>demographics\<close> is None or holds fewer than two demographics. When it returns,
  there were at least two demographics, \<^verbatim>\<open>overall\<close> is the passed network,
  \<^verbatim>\<open>demographics\<close> is the passed object, and \<^verbatim>\<open>subnets\<close> holds, in demographic order,
  one specialised network per demographic. It does return when there are at least two
  demographics and every specialisation succeeds.
\<close>

theorem build_spec:
  "(dems = None \<or> (\<exists>ds. dems = Some ds \<and> length ds < 2)
      \<longrightarrow> build sp net dems = Inl ValueError) \<and>
   (\<forall>r. build sp net dems = Inr r \<longrightarrow>
      (\<exists>ds. dems = Some ds \<and> 2 \<le> length ds \<and>
         overall r = Some net \<and> demographics r = Some ds \<and>
         length (subnets r) = length ds \<and>
         (\<forall>i<length ds. sp net (ds ! i) = Inr (subnets r ! i)))) \<and>
   (\<forall>ds. dems = Some ds \<and> 2 \<le> length ds \<and> (\<forall>d\<in>set ds. \<exists>n. sp net d = Inr n)
      \<longrightarrow> (\<exists>r. build sp net dems = Inr r))"
proof (intro conjI allI impI)
  assume "dems = None \<or> (\<exists>ds. dems = Some ds \<and> length ds < 2)"
  then show "build sp net dems = Inl ValueError"
    by (auto simp: build_def)
next
  fix r
  assume b: "build sp net dems = Inr r"
  then obtain ds where ds: "dems = Some ds" "\<not> length ds < 2"
    by (cases dems) (auto simp: build_def split: if_splits)
  with b obtain nets where nets: "specialise_each (sp net) ds [] = Inr nets"
    and r: "r = \<lparr>overall = Some net, subnets = nets, demographics = Some ds\<rparr>"
    by (auto simp: build_def split: sum.splits)
  from specialise_each_Inr [OF nets] have
    "length nets = length ds" "\<forall>i<length ds. sp net (ds ! i) = Inr (nets ! i)"
    by auto
  with ds r show "\<exists>ds. dems = Some ds \<and> 2 \<le> length ds \<and>
         overall r = Some net \<and> demographics r = Some ds \<and>
         length (subnets r) = length ds \<and>
         (\<forall>i<length ds. sp net (ds ! i) = Inr (subnets r ! i))"
    by simp
next
  fix ds
  assume a: "dems = Some ds \<and> 2 \<le> length ds \<and> (\<forall>d\<in>set ds. \<exists>n. sp net d = Inr n)"
  then obtain nets where "specialise_each (sp net) ds [] = Inr nets"
    using specialise_each_total [of ds "sp net" "[]"] by blast
  with a show "\<exists>r. build sp net dems = Inr r"
    by (simp add: build_def)
qed

theorem build_spec_witness:
  "build (\<lambda>n d. Inr (n + d)) (1::nat) None = Inl ValueError \<and>
   build (\<lambda>n d. Inr (n + d)) (1::nat) (Some [5::nat]) = Inl ValueError \<and>
   (\<exists>r. build (\<lambda>n d. Inr (n + d)) (1::nat) (Some [10, 20::nat]) = Inr r \<and>
        overall r = Some 1 \<and> demographics r = Some [10, 20] \<and> length (subnets r) = 2 \<and>
        subnets r ! 0 = 11 \<and> subnets r ! 1 = 21)"
proof -
  let ?sp = "\<lambda>(n::nat) (d::nat). (Inr (n + d) :: error + nat)"
  have n: "build ?sp 1 None = Inl ValueError"
    using build_spec [of None ?sp 1] by simp
  have s: "build ?sp 1 (Some [5]) = Inl ValueError"
    using build_spec [of "Some [5]" ?sp 1] by simp
  have "\<exists>r. build ?sp 1 (Some [10, 20]) = Inr r"
    using build_spec [of "Some [10, 20]" ?sp 1] by simp
  then obtain r where r: "build ?sp 1 (Some [10, 20]) = Inr r" ..
  with build_spec [of "Some [10, 20]" ?sp 1]
  have p: "overall r = Some 1" "demographics r = Some [10, 20]" "length (subnets r) = 2"
    "\<forall>i<2. Inr (1 + [10, 20] ! i) = (Inr (subnets r ! i) :: error + nat)"
    by auto
  from p(4) have "subnets r ! 0 = 11" "subnets r ! 1 = 21"
    by (auto simp: eval_nat_numeral)
  with n s r p show ?thesis by blast
qed

section \<open>Properties of get_functions\<close>

text \<open>
  Claim C7. For a stage among the six recognised stages, \<^verbatim>\<open>get_functions\<close> calls the
  mover, the iterator, the mixer and the extractor, in this order and each with the
  shared keyword bundle, and returns the concatenation of the four lists in that order.
  For any other stage it raises ValueError, and no plugin is called.
\<close>

theorem get_functions_spec:
  assumes K: "K = \<lparr>kw_stage = stage, kw_network = network, kw_population = population,
                   kw_infections = infections, kw_rngs = rngs, kw_nthreads = nthreads,
                   kw_profiler = profiler\<rparr>"
  shows "(stage \<in> set stages \<and> mover K w = (Inr fm, w1) \<and> iterator K w1 = (Inr fi, w2) \<and>
          mixer K w2 = (Inr fx, w3) \<and> extractor K w3 = (Inr fe, w4) \<longrightarrow>
            get_functions stage network population infections output_dir workspace
              iterator extractor mixer mover rngs nthreads profiler w
            = (Inr (fm @ fi @ fx @ fe), w4)) \<and>
         (stage \<notin> set stages \<longrightarrow>
            get_functions stage network population infections output_dir workspace
              iterator extractor mixer mover rngs nthreads profiler w
            = (Inl ValueError, w))"
  using K by (simp add: get_functions_def)

theorem get_functions_spec_witness:
  "get_functions ''foi'' () () () () ()
     (\<lambda>k w. (Inr [kw_stage k @ ''_iterator''], w @ [''iterator'']))
     (\<lambda>k w. (Inr [kw_stage k @ ''_extractor''], w @ [''extractor'']))
     (\<lambda>k w. (Inr [kw_stage k @ ''_mixer''], w @ [''mixer'']))
     (\<lambda>k w. (Inr [kw_stage k @ ''_mover''], w @ [''mover'']))
     () 1 () []
   = (Inr [''foi_mover'', ''foi_iterator'', ''foi_mixer'', ''foi_extractor''],
      [''mover'', ''iterator'', ''mixer'', ''extractor'']) \<and>
   get_functions ''play'' () () () () ()
     (\<lambda>k w. (Inr [kw_stage k @ ''_iterator''], w @ [''iterator'']))
     (\<lambda>k w. (Inr [kw_stage k @ ''_extractor''], w @ [''extractor'']))
     (\<lambda>k w. (Inr [kw_stage k @ ''_mixer''], w @ [''mixer'']))
     (\<lambda>k w. (Inr [kw_stage k @ ''_mover''], w @ [''mover'']))
     () 1 () []
   = (Inl ValueError, [])"
proof -
  let ?K = "\<lambda>s. \<lparr>kw_stage = s, kw_network = (), kw_population = (),
                   kw_infections = (), kw_rngs = (), kw_nthreads = 1::int,
                   kw_profiler = ()\<rparr>"
  have a: "''foi'' \<in> set stages" and b: "''play'' \<notin> set stages"
    by (simp_all add: stages_def)
  show ?thesis
    using a b
      get_functions_spec [of "?K ''foi''" "''foi''" "()" "()" "()" "()" 1 "()"
        "\<lambda>k w. (Inr [kw_stage k @ ''_mover''], w @ [''mover''])" "[]"
        "[''foi_mover'']" "[''mover'']"
        "\<lambda>k w. (Inr [kw_stage k @ ''_iterator''], w @ [''iterator''])"
        "[''foi_iterator'']" "[''mover'', ''iterator'']"
        "\<lambda>k w. (Inr [kw_stage k @ ''_mixer''], w @ [''mixer''])"
        "[''foi_mixer'']" "[''mover'', ''iterator'', ''mixer'']"
        "\<lambda>k w. (Inr [kw_stage k @ ''_extractor''], w @ [''extractor''])"
        "[''foi_extractor'']" "[''mover'', ''iterator'', ''mixer'', ''extractor'']"
        "()" "()"]
      get_functions_spec [of "?K ''play''" "''play''" "()" "()" "()" "()" 1 "()"
        "\<lambda>k w. (Inr [kw_stage k @ ''_mover''], w @ [''mover''])" "[]"
        _ _ "\<lambda>k w. (Inr [kw_stage k @ ''_iterator''], w @ [''iterator''])" _ _
        "\<lambda>k w. (Inr [kw_stage k @ ''_mixer''], w @ [''mixer''])" _ _
        "\<lambda>k w. (Inr [kw_stage k @ ''_extractor''], w @ [''extractor''])" _ _ "()" "()"]
    by simp
qed

section \<open>Properties of the Ward operations\<close>

lemmas ward_defs = string_ops_def init_ward_def as_positive_integer_def as_positive_float_def
  resolve_destination_def add_workers_def subtract_workers_def add_player_weight_def
  subtract_player_weight_def tiny_def dict_contains_def assert_sane_def dict_values_def
  dict_keys_def Let_def

text \<open>
  Claim C2. With a weight \<open>w\<close> between 1e-10 and \<open>players[dest]\<close>,
  \<^verbatim>\<open>subtract_player_weight(w, dest)\<close> should lower \<open>players[dest]\<close> by \<open>w\<close> and return
  \<open>w\<close> to \<open>player_total\<close>, so that the player weights and the residual still sum to 1.
  The source returns \<open>w\<close> to \<open>player_total\<close> and then deletes the whole entry: on the
  Ward with id 1 that plays in ward 2 with weight 0.5, subtracting 0.1 leaves no entry
  for ward 2 and a residual of 0.6. The weight 0.4 is lost, and \<^verbatim>\<open>assert_sane\<close> raises
  on the result.
\<close>

theorem subtract_player_weight_drops_entry:
  "init_ward string_ops (Some 1) None True =
     Inr (Some \<lparr>ward_id = Some 1, info = '''', workers = [], players = [],
                player_total = 1, num_workers = 0, num_players = 0, pos = No_Pos,
                auto_assign_players = True\<rparr>) \<and>
   add_player_weight string_ops
     \<lparr>ward_id = Some 1, info = '''', workers = [], players = [],
      player_total = 1, num_workers = 0, num_players = 0, pos = No_Pos,
      auto_assign_players = True\<rparr> (1 / 2) (Dest_Id 2) =
     Inr \<lparr>ward_id = Some 1, info = '''', workers = [], players = [(Id 2, 1 / 2)],
          player_total = 1 / 2, num_workers = 0, num_players = 0, pos = No_Pos,
          auto_assign_players = True\<rparr> \<and>
   subtract_player_weight string_ops
     \<lparr>ward_id = Some 1, info = '''', workers = [], players = [(Id 2, 1 / 2)],
      player_total = 1 / 2, num_workers = 0, num_players = 0, pos = No_Pos,
      auto_assign_players = True\<rparr> (1 / 10) (Dest_Id 2) =
     Inr \<lparr>ward_id = Some 1, info = '''', workers = [], players = [],
          player_total = 3 / 5, num_workers = 0, num_players = 0, pos = No_Pos,
          auto_assign_players = True\<rparr> \<and>
   assert_sane
     \<lparr>ward_id = Some 1, info = '''', workers = [], players = [],
      player_total = 3 / 5, num_workers = 0, num_players = 0, pos = No_Pos,
      auto_assign_players = True\<rparr> = Inl AssertionError"
  by (simp add: ward_defs)

text \<open>
  Claim C4. With \<open>n\<close> strictly less than \<open>workers[dest]\<close>, \<^verbatim>\<open>subtract_workers(n, dest)\<close>
  should lower \<open>workers[dest]\<close> and \<open>num_workers\<close> by \<open>n\<close>. The source subtracts \<open>n\<close>
  from the dict instead of from its entry and raises TypeError: on the Ward with id 1
  and 10 workers commuting to ward 2, subtracting 3 raises.
\<close>

theorem subtract_workers_type_error:
  "add_workers string_ops
     \<lparr>ward_id = Some 1, info = '''', workers = [], players = [],
      player_total = 1, num_workers = 0, num_players = 0, pos = No_Pos,
      auto_assign_players = True\<rparr> 10 (Dest_Id 2) =
     Inr \<lparr>ward_id = Some 1, info = '''', workers = [(Id 2, 10)], players = [],
          player_total = 1, num_workers = 10, num_players = 0, pos = No_Pos,
          auto_assign_players = True\<rparr> \<and>
   subtract_workers string_ops
     \<lparr>ward_id = Some 1, info = '''', workers = [(Id 2, 10)], players = [],
      player_total = 1, num_workers = 10, num_players = 0, pos = No_Pos,
      auto_assign_players = True\<rparr> 3 (Dest_Id 2) = Inl TypeError"
  by (simp add: ward_defs)

text \<open>
  Claim C6, as stated: \<^verbatim>\<open>add_player_weight\<close> raises exactly when the weight exceeds
  \<open>player_total\<close> by more than 1e-10. It fails where the weight exceeds the residual by
  1e-10 exactly: a Ward whose residual is 0 refuses the weight 1e-10.
\<close>

theorem add_player_weight_boundary:
  "add_player_weight string_ops
     \<lparr>ward_id = Some 1, info = '''', workers = [], players = [],
      player_total = 1, num_workers = 0, num_players = 0, pos = No_Pos,
      auto_assign_players = True\<rparr> 1 (Dest_Id 2) =
     Inr \<lparr>ward_id = Some 1, info = '''', workers = [], players = [(Id 2, 1)],
          player_total = 0, num_workers = 0, num_players = 0, pos = No_Pos,
          auto_assign_players = True\<rparr> \<and>
   add_player_weight string_ops
     \<lparr>ward_id = Some 1, info = '''', workers = [], players = [(Id 2, 1)],
      player_total = 0, num_workers = 0, num_players = 0, pos = No_Pos,
      auto_assign_players = True\<rparr> (1 / 10000000000) (Dest_Id 3) = Inl ValueError \<and>
   \<not> ((1 / 10000000000 :: real) > 0 + 1 / 10000000000)"
  by (simp add: ward_defs)

text \<open>
  Claim C6, amended. For a non-negative weight and a destination that resolves,
  \<^verbatim>\<open>add_player_weight\<close> raises exactly when the weight is at least 1e-10 and exceeds
  \<open>player_total\<close> by at least 1e-10. A weight below 1e-10 changes nothing. Otherwise
  the weight is replaced by \<open>player_total\<close> when it differs from it by less than 1e-10,
  \<open>players[dest]\<close> grows by that weight (from 0 when the entry is new), the other
  entries stay, \<open>player_total\<close> falls by that weight and becomes 0 when the result is
  below 1e-10, and nothing else changes.
\<close>

theorem add_player_weight_spec:
  assumes "0 \<le> weight" and "resolve_destination ops self destination = Inr dst"
  shows
    "((\<exists>e. add_player_weight ops self weight destination = Inl e)
        \<longleftrightarrow> tiny \<le> weight \<and> player_total self + tiny \<le> weight) \<and>
     (weight < tiny \<longrightarrow> add_player_weight ops self weight destination = Inr self) \<and>
     (tiny \<le> weight \<and> weight < player_total self + tiny \<longrightarrow>
        (\<exists>self'. add_player_weight ops self weight destination = Inr self' \<and>
           (let w = (if \<bar>weight - player_total self\<bar> < tiny then player_total self else weight)
            in map_of (players self') dst =
                 Some ((case map_of (players self) dst of None \<Rightarrow> 0 | Some c \<Rightarrow> c) + w) \<and>
               (\<forall>k. k \<noteq> dst \<longrightarrow> map_of (players self') k = map_of (players self) k) \<and>
               player_total self' =
                 (if player_total self - w < tiny then 0 else player_total self - w) \<and>
               self' = self\<lparr>players := players self', player_total := player_total self'\<rparr>)))"
  using assms
  by (auto simp: add_player_weight_def as_positive_float_def dict_contains_def Let_def
        update_conv' tiny_def split: option.splits)

theorem add_player_weight_spec_witness:
  "(0::real) \<le> 1 / 2 \<and>
   resolve_destination string_ops
     \<lparr>ward_id = Some 1, info = '''', workers = [], players = [],
      player_total = 1, num_workers = 0, num_players = 0, pos = No_Pos,
      auto_assign_players = True\<rparr> (Dest_Id 2) = Inr (Id 2) \<and>
   \<not> (\<exists>e. add_player_weight string_ops
     \<lparr>ward_id = Some 1, info = '''', workers = [], players = [],
      player_total = 1, num_workers = 0, num_players = 0, pos = No_Pos,
      auto_assign_players = True\<rparr> (1 / 2) (Dest_Id 2) = Inl e) \<and>
   (\<exists>self'. add_player_weight string_ops
     \<lparr>ward_id = Some 1, info = '''', workers = [], players = [],
      player_total = 1, num_workers = 0, num_players = 0, pos = No_Pos,
      auto_assign_players = True\<rparr> (1 / 2) (Dest_Id 2) = Inr self' \<and>
      map_of (players self') (Id 2) = Some (1 / 2) \<and> player_total self' = 1 / 2)"
proof -
  let ?W = "\<lparr>ward_id = Some 1, info = '''', workers = [], players = [],
      player_total = 1, num_workers = 0, num_players = 0, pos = No_Pos,
      auto_assign_players = True\<rparr> :: string ward"
  have h1: "(0::real) \<le> 1 / 2" by simp
  have h2: "resolve_destination string_ops ?W (Dest_Id 2) = Inr (Id 2)"
    by (simp add: resolve_destination_def as_positive_integer_def)
  have h3: "tiny \<le> 1 / 2 \<and> 1 / 2 < player_total ?W + tiny"
    by (simp add: tiny_def)
  have h4: "\<not> (tiny \<le> 1 / 2 \<and> player_total ?W + tiny \<le> 1 / 2)"
    by (simp add: tiny_def)
  have h5: "\<not> \<bar>1 / 2 - player_total ?W\<bar> < tiny" "\<not> player_total ?W - 1 / 2 < tiny"
    by (simp_all add: tiny_def)
  from add_player_weight_spec [OF h1 h2] h4
  have no_err: "\<not> (\<exists>e. add_player_weight string_ops ?W (1 / 2) (Dest_Id 2) = Inl e)"
    by blast
  from add_player_weight_spec [OF h1 h2] h3
  obtain self' where s: "add_player_weight string_ops ?W (1 / 2) (Dest_Id 2) = Inr self'"
    "(let w = (if \<bar>1 / 2 - player_total ?W\<bar> < tiny then player_total ?W else 1 / 2)
      in map_of (players self') (Id 2) =
           Some ((case map_of (players ?W) (Id 2) of None \<Rightarrow> 0 | Some c \<Rightarrow> c) + w) \<and>
         (\<forall>k. k \<noteq> Id 2 \<longrightarrow> map_of (players self') k = map_of (players ?W) k) \<and>
         player_total self' =
           (if player_total ?W - w < tiny then 0 else player_total ?W - w) \<and>
         self' = ?W\<lparr>players := players self', player_total := player_total self'\<rparr>)"
    by blast
  from s(2) h5 have "map_of (players self') (Id 2) = Some (1 / 2)" "player_total self' = 1 / 2"
    by (simp_all add: Let_def)
  with s(1) no_err h1 h2 show ?thesis
    by blast
qed

section \<open>Properties of advance_additional\<close>

text \<open>
  Claim C1, as stated: a seed larger than the play susceptibles of its ward is capped at
  what is available. It fails: ward 1 has 3 play susceptibles and the event of day 10
  asks for 5; the source logs the warning and leaves both arrays as they were, where
  capping would move the 3 susceptibles to \<open>play_infections[0][1]\<close>.
\<close>

theorem advance_additional_skips_shortfall:
  "advance_additional (\<lambda>w. Inr w) (\<lambda>d::unit. Inr 0) Network 10 [(10, 1, 5, None)]
     \<lparr>play_suscept = [0, 3::int], play_infections = [[0, 0]], console = []\<rparr> =
   Inr \<lparr>play_suscept = [0, 3], play_infections = [[0, 0]], console = [Warning]\<rparr> \<and>
   [0, 3::int] ! 1 \<noteq> 3 - 3 \<and> [0, 0::int] ! 1 \<noteq> 0 + 3"
  by (simp add: seed_ward_def py_index_def)

text \<open>
  Claim C1, amended. On a single \<^verbatim>\<open>Network\<close>, for an event \<open>(day, ward, n)\<close> of the
  current day whose ward is a node of the network: when \<open>play_suscept[ward]\<close> is at
  least \<open>n\<close>, \<open>play_suscept[ward]\<close> falls by \<open>n\<close> and \<open>play_infections[0][ward]\<close> grows
  by \<open>n\<close>; when \<open>n\<close> exceeds \<open>play_suscept[ward]\<close>, a warning is logged and the event is
  skipped, both arrays unchanged. Either way the run goes on with the next event.
  An event of another day is passed over, and the loop ends without error.
\<close>

theorem advance_additional_spec:
  assumes "get_node_index ward = Inr (int w)" and "w < length (play_suscept st)"
    and "play_infections st = row # rows" and "w < length row"
  shows
    "advance_additional get_node_index get_index Network day ((day, ward, num, dem) # seeds) st =
       advance_additional get_node_index get_index Network day seeds
         (if play_suscept st ! w < of_int num
          then st\<lparr>console := console st @ [Warning]\<rparr>
          else st\<lparr>play_suscept := (play_suscept st)[w := play_suscept st ! w - of_int num],
                  play_infections := row[w := row ! w + num] # rows,
                  console := console st @ [Print]\<rparr>) \<and>
     (sday \<noteq> day \<longrightarrow>
        advance_additional get_node_index get_index Network day ((sday, ward, num, dem) # seeds) st =
        advance_additional get_node_index get_index Network day seeds st) \<and>
     advance_additional get_node_index get_index Network day [] st = Inr st"
  using assms by (cases st) (simp add: seed_ward_def py_index_def Let_def)

theorem advance_additional_spec_witness:
  "advance_additional (\<lambda>w. Inr w) (\<lambda>d::unit. Inr 0) Network 10
     [(10, 1, 5, None), (9, 1, 1, None), (10, 1, 1, None)]
     \<lparr>play_suscept = [0, 5::int], play_infections = [[0, 2]], console = []\<rparr> =
   Inr \<lparr>play_suscept = [0, 0], play_infections = [[0, 7]], console = [Print, Warning]\<rparr>"
proof -
  let ?g = "\<lambda>w::int. (Inr w :: error + int)"
  let ?i = "\<lambda>d::unit. (Inr 0 :: error + int)"
  let ?st0 = "\<lparr>play_suscept = [0, 5::int], play_infections = [[0, 2]], console = []\<rparr>"
  let ?st1 = "\<lparr>play_suscept = [0, 0::int], play_infections = [[0, 7]], console = [Print]\<rparr>"
  let ?st2 = "\<lparr>play_suscept = [0, 0::int], play_infections = [[0, 7]], console = [Print, Warning]\<rparr>"
  have s1: "advance_additional ?g ?i Network 10
     [(10, 1, 5, None), (9, 1, 1, None), (10, 1, 1, None)] ?st0 =
     advance_additional ?g ?i Network 10 [(9, 1, 1, None), (10, 1, 1, None)] ?st1"
    using advance_additional_spec [where get_node_index = ?g and ward = 1 and w = 1
        and st = ?st0 and row = "[0, 2]" and rows = "[]" and get_index = ?i and day = 10
        and num = 5 and dem = None and seeds = "[(9, 1, 1, None), (10, 1, 1, None)]"]
    by simp
  have s2: "advance_additional ?g ?i Network 10 [(9, 1, 1, None), (10, 1, 1, None)] ?st1 =
     advance_additional ?g ?i Network 10 [(10, 1, 1, None)] ?st1"
    using advance_additional_spec [where get_node_index = ?g and ward = 1 and w = 1
        and st = ?st1 and row = "[0, 7]" and rows = "[]" and get_index = ?i and day = 10
        and num = 1 and dem = None and seeds = "[(10, 1, 1, None)]" and sday = 9]
    by simp
  have s3: "advance_additional ?g ?i Network 10 [(10, 1, 1, None)] ?st1 =
     advance_additional ?g ?i Network 10 [] ?st2"
    using advance_additional_spec [where get_node_index = ?g and ward = 1 and w = 1
        and st = ?st1 and row = "[0, 7]" and rows = "[]" and get_index = ?i and day = 10
        and num = 1 and dem = None and seeds = "[]"]
    by simp
  have s4: "advance_additional ?g ?i Network 10 [] ?st2 = Inr ?st2"
    using advance_additional_spec [where get_node_index = ?g and ward = 1 and w = 1
        and st = ?st2 and row = "[0, 7]" and rows = "[]" and get_index = ?i and day = 10]
    by simp
  from s1 s2 s3 s4 show ?thesis by simp
qed

section \<open>Properties of the player lists\<close>

lemma key_int_eq: "key_int k = Some n \<longleftrightarrow> k = Some (Id n)"
  by (cases k rule: key_int.cases) auto

lemma set_map_filter_key_int:
  "set (List.map_filter key_int ks) = {n. Some (Id n) \<in> set ks}"
proof (induction ks)
  case Nil
  then show ?case by (simp add: List.map_filter_simps)
next
  case (Cons k ks)
  show ?case
  proof (cases "key_int k")
    case None
    then have "\<And>n. k \<noteq> Some (Id n)" using key_int_eq [of k] by auto
    with None Cons show ?thesis by (auto simp: List.map_filter_simps)
  next
    case (Some m)
    then have "k = Some (Id m)" by (simp add: key_int_eq)
    with Some Cons show ?thesis by (auto simp: List.map_filter_simps)
  qed
qed

lemma list_all_key_int:
  "list_all (\<lambda>k. key_int k \<noteq> None) (map Some ks) = list_all is_int ks"
proof (induction ks)
  case Nil
  then show ?case by simp
next
  case (Cons k ks)
  then show ?case by (cases k) auto
qed

text \<open>
  Claim C9, as stated: with \<open>auto_assign_players\<close> the ward's own id is appended only
  when the residual is strictly positive. It fails: the Ward with id 1 whose whole
  weight plays in ward 2 has residual 0 and no entry for itself, and its own id is
  in the list, with weight 0.
\<close>

theorem get_player_lists_zero_residual:
  "get_player_lists
     \<lparr>ward_id = Some 1, info = '''', workers = [], players = [(Id 2, 1)],
      player_total = 0, num_workers = 0, num_players = 0, pos = No_Pos,
      auto_assign_players = True\<rparr> False = Inr ([1, 2], [0, 1]) \<and>
   map_of [(Id 2 :: string dest, 1 :: real)] (Id 1) = None \<and> (1::int) \<in> set [1, 2]"
  by (simp add: get_player_lists_def sorted_int_keys_def dict_keys_def List.map_filter_simps Let_def)

text \<open>
  Claim C9, amended. For a resolved Ward with id \<open>i\<close>, \<^verbatim>\<open>get_player_lists\<close> returns the
  destinations in ascending order with one weight each. With \<open>auto_assign_players\<close>
  true and \<open>no_auto_assign\<close> false the destinations are the keys of the players map
  and the own id \<open>i\<close>, whatever the residual, and the weight of \<open>i\<close> is the explicit
  self-weight (0 without entry) plus \<open>player_total\<close>. Otherwise the destinations are
  the keys of the players map alone and no residual is added to any weight.
\<close>

theorem get_player_lists_spec:
  assumes "ward_id self = Some i" and "list_all is_int (dict_keys (players self))"
  shows
    "\<exists>ks ws. get_player_lists self no_auto_assign = Inr (ks, ws) \<and>
       length ws = length ks \<and> sorted ks \<and>
       set ks = {k. Id k \<in> set (dict_keys (players self))} \<union>
                (if \<not> no_auto_assign \<and> auto_assign_players self then {i} else {}) \<and>
       (\<forall>n<length ks.
          ws ! n = (case map_of (players self) (Id (ks ! n)) of None \<Rightarrow> 0 | Some v \<Rightarrow> v) +
                   (if \<not> no_auto_assign \<and> auto_assign_players self \<and> ks ! n = i
                    then player_total self else 0))"
proof -
  let ?keys = "map Some (dict_keys (players self))"
  let ?auto = "\<not> no_auto_assign \<and> auto_assign_players self"
  let ?keys' = "if ?auto \<and> Some (Id i) \<notin> set ?keys then ?keys @ [Some (Id i)] else ?keys"
  have all: "list_all (\<lambda>k. key_int k \<noteq> None) ?keys"
    using assms(2) by (simp add: list_all_key_int del: not_None_eq)
  let ?ks = "sort (List.map_filter key_int ?keys')"
  have set: "set ?ks = {k. Id k \<in> set (dict_keys (players self))} \<union>
                (if ?auto then {i} else {})"
    by (auto simp: set_map_filter_key_int)
  have "get_player_lists self no_auto_assign =
      Inr (?ks, map (\<lambda>key.
                        let weight = (case map_of (players self) (Id key) of
                                        None \<Rightarrow> 0 | Some v \<Rightarrow> v)
                        in if ?auto \<and> Some key = ward_id self
                           then weight + player_total self else weight) ?ks)"
    unfolding get_player_lists_def sorted_int_keys_def Let_def
    by (simp add: all assms(1) del: not_None_eq)
  then show ?thesis
    using set assms(1) by (auto simp: Let_def)
qed

theorem get_player_lists_spec_witness:
  "\<exists>ks ws. get_player_lists
     \<lparr>ward_id = Some 1, info = ''a'', workers = [], players = [(Id 2, 1 / 4)],
      player_total = 3 / 4, num_workers = 0, num_players = 0, pos = No_Pos,
      auto_assign_players = True\<rparr> False = Inr (ks, ws) \<and>
     length ws = length ks \<and> sorted ks \<and> set ks = {1, 2}"
  using get_player_lists_spec [of
     "\<lparr>ward_id = Some 1, info = ''a'', workers = [], players = [(Id 2, 1 / 4)],
      player_total = 3 / 4, num_workers = 0, num_players = 0, pos = No_Pos,
      auto_assign_players = True\<rparr>" 1 False]
  by (auto simp: dict_keys_def)

section \<open>Properties of mix_custom\<close>

lemma remdups_snoc: "remdups (ys @ [x]) = remdups (filter (\<lambda>y. y \<noteq> x) ys) @ [x]"
  by (induction ys) auto

lemma insert_core_eq:
  "n \<le> length core \<Longrightarrow>
     insert_core core n custom = remdups (filter (\<lambda>f. f \<notin> set custom) (take n core)) @ custom"
proof (induction n arbitrary: custom)
  case 0
  then show ?case by simp
next
  case (Suc n)
  then have n: "n < length core" by simp
  let ?x = "core ! n"
  show ?case
  proof (cases "?x \<in> set custom")
    case True
    with Suc n show ?thesis by (simp add: take_Suc_conv_app_nth)
  next
    case False
    have "insert_core core (Suc n) custom = insert_core core n (?x # custom)"
      using False by simp
    also have "\<dots> = remdups (filter (\<lambda>f. f \<notin> set (?x # custom)) (take n core)) @ ?x # custom"
      using Suc.IH [of "?x # custom"] n by simp
    also have "\<dots> = remdups (filter (\<lambda>f. f \<notin> set custom) (take (Suc n) core)) @ custom"
      using False n
      by (simp add: take_Suc_conv_app_nth remdups_snoc conj_commute)
    finally show ?thesis .
  qed
qed

lemma subseq_remdups: "subseq (remdups xs) xs"
  by (induction xs) (auto intro: subseq_Cons')

text \<open>
  Claim C8. Outside setup, \<^verbatim>\<open>mix_custom\<close> returns the list of the custom function with
  a prefix put in front of it. The prefix consists of the functions of \<^verbatim>\<open>merge_core\<close>
  that the custom list does not contain, in the order of \<^verbatim>\<open>merge_core\<close>; when
  \<^verbatim>\<open>merge_core\<close> lists no function twice, it is exactly those functions in that order.
  So every core function is in the result, before the custom functions unless the
  custom list holds it already. A result None counts as the empty list.
\<close>

theorem mix_custom_spec:
  assumes "core = (case merge_core None kwargs of None \<Rightarrow> [] | Some c \<Rightarrow> c)"
    and "custom = (case custom_function None kwargs of None \<Rightarrow> [] | Some c \<Rightarrow> c)"
  shows "\<exists>pre. mix_custom merge_core custom_function needs_setup False kwargs = pre @ custom \<and>
           set pre = set core - set custom \<and> subseq pre core \<and>
           (distinct core \<longrightarrow> pre = filter (\<lambda>f. f \<notin> set custom) core)"
proof -
  consider "core = []" | "core \<noteq> []" "custom = []" | "core \<noteq> []" "custom \<noteq> []"
    by blast
  then show ?thesis
  proof cases
    case 1
    then have "mix_custom merge_core custom_function needs_setup False kwargs = custom"
      using assms by (auto simp: mix_custom_def split: option.splits)
    with 1 show ?thesis by simp
  next
    case 2
    then have "mix_custom merge_core custom_function needs_setup False kwargs = core"
      using assms by (auto simp: mix_custom_def split: option.splits)
    with 2 show ?thesis by simp
  next
    case 3
    let ?pre = "remdups (filter (\<lambda>f. f \<notin> set custom) core)"
    have "mix_custom merge_core custom_function needs_setup False kwargs =
            insert_core core (length core) custom"
      using 3 assms by (auto simp: mix_custom_def split: option.splits)
    then have "mix_custom merge_core custom_function needs_setup False kwargs = ?pre @ custom"
      by (simp add: insert_core_eq)
    moreover have "set ?pre = set core - set custom" by auto
    moreover have "subseq ?pre core"
      using subseq_remdups [of "filter (\<lambda>f. f \<notin> set custom) core"]
        subseq_filter_left [of "\<lambda>f. f \<notin> set custom" core]
      by (rule subseq_order.trans)
    moreover have "distinct core \<longrightarrow> ?pre = filter (\<lambda>f. f \<notin> set custom) core"
      by (simp add: distinct_remdups_id)
    ultimately show ?thesis by blast
  qed
qed

theorem mix_custom_spec_witness:
  "mix_custom (\<lambda>s k. Some [''merge_a'', ''merge_b'']) (\<lambda>s k. Some [''mix_x'', ''merge_b''])
     False False () = [''merge_a'', ''mix_x'', ''merge_b'']"
proof -
  let ?m = "\<lambda>(s::bool option) (k::unit). Some [''merge_a'', ''merge_b'']"
  let ?c = "\<lambda>(s::bool option) (k::unit). Some [''mix_x'', ''merge_b'']"
  from mix_custom_spec [of "[''merge_a'', ''merge_b'']" ?m "()" "[''mix_x'', ''merge_b'']" ?c False]
  obtain pre where "mix_custom ?m ?c False False () = pre @ [''mix_x'', ''merge_b'']"
    "distinct [''merge_a'', ''merge_b''] \<longrightarrow>
       pre = filter (\<lambda>f. f \<notin> set [''mix_x'', ''merge_b'']) [''merge_a'', ''merge_b'']"
    by auto
  then show ?thesis by simp
qed

section \<open>Properties of Ward.resolve\<close>

lemma dict_keys_dom: "set (dict_keys d) = dom (map_of d)"
  by (simp add: dict_keys_def dom_map_of_conv_image_fst)

lemma dict_contains_dom: "dict_contains d k \<longleftrightarrow> k \<in> dom (map_of d)"
  by (auto simp: dict_contains_def)

lemma resolve_keys_absent:
  "(\<forall>k. Info k \<in> set keys \<longrightarrow> \<not> wards_contains W k) \<Longrightarrow> resolve_keys W keys d = Inr d"
  by (induction W keys d rule: resolve_keys.induct) auto

lemma resolve_keys_collision:
  "Info k \<in> set keys \<Longrightarrow> wards_contains W k \<Longrightarrow> wards_index W k = Inr idx \<Longrightarrow>
   Id idx \<in> dom (map_of d) \<Longrightarrow> \<exists>e. resolve_keys W keys d = Inl e"
proof (induction W keys d rule: resolve_keys.induct)
  case (1 W d)
  then show ?case by simp
next
  case (2 W n keys d)
  then show ?case by simp
next
  case (3 W k0 keys d)
  show ?case
  proof (cases "wards_contains W k0")
    case False
    with 3 show ?thesis by auto
  next
    case True
    show ?thesis
    proof (cases "wards_index W k0")
      case (Inl e)
      with True show ?thesis by simp
    next
      case (Inr idx0)
      show ?thesis
      proof (cases "dict_contains d (Id idx0)")
        case True
        with \<open>wards_contains W k0\<close> Inr show ?thesis by simp
      next
        case nc: False
        show ?thesis
        proof (cases "map_of d (Info k0)")
          case None
          with \<open>wards_contains W k0\<close> Inr nc show ?thesis by simp
        next
          case (Some v)
          have ne: "k0 \<noteq> k"
            using nc Inr "3.prems"(3,4) by (auto simp: dict_contains_dom)
          let ?d1 = "AList.delete (Info k0) (AList.update (Id idx0) v d)"
          have "Id idx \<in> dom (map_of ?d1)"
            using "3.prems"(4) by (auto simp: delete_conv' update_conv')
          moreover have "Info k \<in> set keys" using "3.prems"(1) ne by simp
          ultimately have "\<exists>e. resolve_keys W keys ?d1 = Inl e"
            using "3.IH" \<open>wards_contains W k0\<close> Inr nc Some "3.prems"(2,3) by blast
          with \<open>wards_contains W k0\<close> Inr nc Some show ?thesis by simp
        qed
      qed
    qed
  qed
qed

lemma resolve_keys_result:
  "resolve_keys W keys d = Inr d' \<Longrightarrow> Info k \<in> dom (map_of d') \<Longrightarrow>
     Info k \<in> dom (map_of d) \<and> (Info k \<in> set keys \<longrightarrow> \<not> wards_contains W k)"
proof (induction W keys d rule: resolve_keys.induct)
  case (1 W d)
  then show ?case by simp
next
  case (2 W n keys d)
  then show ?case by simp
next
  case (3 W k0 keys d)
  show ?case
  proof (cases "wards_contains W k0")
    case False
    with 3 show ?thesis by auto
  next
    case True
    from "3.prems"(1) True obtain idx0 v where
      i: "wards_index W k0 = Inr idx0" and nc: "\<not> dict_contains d (Id idx0)"
      and v: "map_of d (Info k0) = Some v"
      and r: "resolve_keys W keys (AList.delete (Info k0) (AList.update (Id idx0) v d)) = Inr d'"
      by (auto split: sum.splits if_splits option.splits)
    from "3.IH" True i nc v r "3.prems"(2)
    have "Info k \<in> dom (map_of (AList.delete (Info k0) (AList.update (Id idx0) v d)))"
      and "Info k \<in> set keys \<longrightarrow> \<not> wards_contains W k"
      by blast+
    then show ?thesis
      by (auto simp: delete_conv' update_conv' split: if_splits)
  qed
qed

lemma resolve_remaining:
  assumes r: "resolve self (Wards W) = Inr self'"
    and k: "Info k \<in> set (dict_keys (workers self')) \<union> set (dict_keys (players self'))"
  shows "\<not> wards_contains W k \<and>
         Info k \<in> set (dict_keys (workers self)) \<union> set (dict_keys (players self))"
proof -
  obtain ws where ws: "resolve_keys W (dict_keys (workers self)) (workers self) = Inr ws"
    using r by (cases "resolve_keys W (dict_keys (workers self)) (workers self)")
      (simp_all add: resolve_def)
  obtain ps where ps: "resolve_keys W (dict_keys (players self)) (players self) = Inr ps"
    using r ws by (cases "resolve_keys W (dict_keys (players self)) (players self)")
      (simp_all add: resolve_def)
  have s: "self' = self\<lparr>workers := ws, players := ps\<rparr>"
    using r ws ps by (simp add: resolve_def)
  then have ks: "workers self' = ws" "players self' = ps"
    by simp_all
  from k consider "Info k \<in> set (dict_keys ws)" | "Info k \<in> set (dict_keys ps)"
    unfolding ks by blast
  then show ?thesis
  proof cases
    case 1
    then have "Info k \<in> dom (map_of ws)" by (simp only: dict_keys_dom)
    from resolve_keys_result [OF ws this] show ?thesis
      by (simp only: dict_keys_dom) blast
  next
    case 2
    then have "Info k \<in> dom (map_of ps)" by (simp only: dict_keys_dom)
    from resolve_keys_result [OF ps this] show ?thesis
      by (simp only: dict_keys_dom) blast
  qed
qed

lemma resolve_keys_index_raises:
  "Info k \<in> set keys \<Longrightarrow> wards_contains W k \<Longrightarrow> wards_index W k = Inl e0 \<Longrightarrow>
     \<exists>e. resolve_keys W keys d = Inl e"
proof (induction W keys d rule: resolve_keys.induct)
  case (1 W d)
  then show ?case by simp
next
  case (2 W n keys d)
  then show ?case by simp
next
  case (3 W k0 keys d)
  show ?case
  proof (cases "wards_contains W k0")
    case False
    with 3 show ?thesis by auto
  next
    case True
    show ?thesis
    proof (cases "wards_index W k0")
      case (Inl e)
      with True show ?thesis by simp
    next
      case (Inr idx0)
      with "3.prems"(3) have ne: "k0 \<noteq> k" by auto
      show ?thesis
      proof (cases "dict_contains d (Id idx0)")
        case True
        with \<open>wards_contains W k0\<close> Inr show ?thesis by simp
      next
        case nc: False
        show ?thesis
        proof (cases "map_of d (Info k0)")
          case None
          with \<open>wards_contains W k0\<close> Inr nc show ?thesis by simp
        next
          case (Some v)
          have "Info k \<in> set keys" using "3.prems"(1) ne by simp
          then have "\<exists>e. resolve_keys W keys
                (AList.delete (Info k0) (AList.update (Id idx0) v d)) = Inl e"
            using "3.IH" \<open>wards_contains W k0\<close> Inr nc Some "3.prems"(2,3) by blast
          with \<open>wards_contains W k0\<close> Inr nc Some show ?thesis by simp
        qed
      qed
    qed
  qed
qed

lemma resolve_keys_duplicate:
  "Info k1 \<in> set keys \<Longrightarrow> Info k2 \<in> set keys \<Longrightarrow> k1 \<noteq> k2 \<Longrightarrow>
   wards_contains W k1 \<Longrightarrow> wards_contains W k2 \<Longrightarrow>
   wards_index W k1 = Inr idx \<Longrightarrow> wards_index W k2 = Inr idx \<Longrightarrow>
     \<exists>e. resolve_keys W keys d = Inl e"
proof (induction W keys d rule: resolve_keys.induct)
  case (1 W d)
  then show ?case by simp
next
  case (2 W n keys d)
  then show ?case by simp
next
  case (3 W k0 keys d)
  show ?case
  proof (cases "wards_contains W k0")
    case False
    with 3 show ?thesis by auto
  next
    case True
    show ?thesis
    proof (cases "wards_index W k0")
      case (Inl e)
      with True show ?thesis by simp
    next
      case (Inr idx0)
      show ?thesis
      proof (cases "dict_contains d (Id idx0)")
        case True
        with \<open>wards_contains W k0\<close> Inr show ?thesis by simp
      next
        case nc: False
        show ?thesis
        proof (cases "map_of d (Info k0)")
          case None
          with \<open>wards_contains W k0\<close> Inr nc show ?thesis by simp
        next
          case (Some v)
          let ?d1 = "AList.delete (Info k0) (AList.update (Id idx0) v d)"
          have step: "resolve_keys W (Info k0 # keys) d = resolve_keys W keys ?d1"
            using \<open>wards_contains W k0\<close> Inr nc Some by simp
          have in_d1: "Id idx0 \<in> dom (map_of ?d1)"
            by (simp add: delete_conv' update_conv')
          consider "k0 = k1" | "k0 = k2" | "k0 \<noteq> k1" "k0 \<noteq> k2" by blast
          then have "\<exists>e. resolve_keys W keys ?d1 = Inl e"
          proof cases
            case 1
            with Inr "3.prems"(6) have "idx0 = idx" by simp
            moreover from 1 "3.prems"(2,3) have "Info k2 \<in> set keys" by auto
            ultimately show ?thesis
              using resolve_keys_collision [OF _ "3.prems"(5) "3.prems"(7), of keys ?d1] in_d1
              by simp
          next
            case 2
            with Inr "3.prems"(7) have "idx0 = idx" by simp
            moreover from 2 "3.prems"(1,3) have "Info k1 \<in> set keys" by auto
            ultimately show ?thesis
              using resolve_keys_collision [OF _ "3.prems"(4) "3.prems"(6), of keys ?d1] in_d1
              by simp
          next
            case 3
            with "3.prems"(1,2) have "Info k1 \<in> set keys" "Info k2 \<in> set keys" by auto
            then show ?thesis
              using "3.IH" \<open>wards_contains W k0\<close> Inr nc Some "3.prems"(3-7) by blast
          qed
          with step show ?thesis by simp
        qed
      qed
    qed
  qed
qed

lemma resolve_keys_success:
  assumes "distinct keys"
    and "\<forall>k. Info k \<in> set keys \<longrightarrow> map_of d (Info k) \<noteq> None"
    and "\<forall>k. Info k \<in> set keys \<and> wards_contains W k \<longrightarrow>
           wards_index W k = Inr (ix k) \<and> map_of d (Id (ix k)) = None"
    and "inj_on ix {k. Info k \<in> set keys \<and> wards_contains W k}"
  shows "\<exists>d'. resolve_keys W keys d = Inr d' \<and>
     (\<forall>k. Info k \<in> set keys \<and> wards_contains W k \<longrightarrow>
          map_of d' (Id (ix k)) = map_of d (Info k) \<and> map_of d' (Info k) = None) \<and>
     (\<forall>k. \<not> (Info k \<in> set keys \<and> wards_contains W k) \<longrightarrow>
          map_of d' (Info k) = map_of d (Info k)) \<and>
     (\<forall>n. (\<forall>k. Info k \<in> set keys \<and> wards_contains W k \<longrightarrow> ix k \<noteq> n) \<longrightarrow>
          map_of d' (Id n) = map_of d (Id n))"
  using assms
proof (induction keys arbitrary: d)
  case Nil
  then show ?case by simp
next
  case (Cons key keys)
  show ?case
  proof (cases key)
    case (Id n)
    have "distinct keys" using Cons.prems(1) by simp
    moreover have "\<forall>k. Info k \<in> set keys \<longrightarrow> map_of d (Info k) \<noteq> None"
      using Cons.prems(2) by simp
    moreover have "\<forall>k. Info k \<in> set keys \<and> wards_contains W k \<longrightarrow>
           wards_index W k = Inr (ix k) \<and> map_of d (Id (ix k)) = None"
      using Cons.prems(3) by simp
    moreover have "inj_on ix {k. Info k \<in> set keys \<and> wards_contains W k}"
      using Cons.prems(4) Id by simp
    ultimately obtain d' where d': "resolve_keys W keys d = Inr d'"
      "\<forall>k. Info k \<in> set keys \<and> wards_contains W k \<longrightarrow>
          map_of d' (Id (ix k)) = map_of d (Info k) \<and> map_of d' (Info k) = None"
      "\<forall>k. \<not> (Info k \<in> set keys \<and> wards_contains W k) \<longrightarrow>
          map_of d' (Info k) = map_of d (Info k)"
      "\<forall>n. (\<forall>k. Info k \<in> set keys \<and> wards_contains W k \<longrightarrow> ix k \<noteq> n) \<longrightarrow>
          map_of d' (Id n) = map_of d (Id n)"
      using Cons.IH [of d] by blast
    have same: "\<And>k. Info k \<in> set (key # keys) \<longleftrightarrow> Info k \<in> set keys"
      using Id by simp
    show ?thesis
      unfolding same using d' Id by (intro exI [of _ d']) simp
  next
    case (Info k0)
    have dk: "distinct keys" and k0_notin: "Info k0 \<notin> set keys"
      using Cons.prems(1) Info by simp_all
    show ?thesis
    proof (cases "wards_contains W k0")
      case False
      have "\<forall>k. Info k \<in> set keys \<longrightarrow> map_of d (Info k) \<noteq> None"
        using Cons.prems(2) by simp
      moreover have "\<forall>k. Info k \<in> set keys \<and> wards_contains W k \<longrightarrow>
           wards_index W k = Inr (ix k) \<and> map_of d (Id (ix k)) = None"
        using Cons.prems(3) by simp
      moreover have "inj_on ix {k. Info k \<in> set keys \<and> wards_contains W k}"
        by (rule inj_on_subset [OF Cons.prems(4)]) auto
      ultimately obtain d' where d': "resolve_keys W keys d = Inr d'"
        "\<forall>k. Info k \<in> set keys \<and> wards_contains W k \<longrightarrow>
            map_of d' (Id (ix k)) = map_of d (Info k) \<and> map_of d' (Info k) = None"
        "\<forall>k. \<not> (Info k \<in> set keys \<and> wards_contains W k) \<longrightarrow>
            map_of d' (Info k) = map_of d (Info k)"
        "\<forall>n. (\<forall>k. Info k \<in> set keys \<and> wards_contains W k \<longrightarrow> ix k \<noteq> n) \<longrightarrow>
            map_of d' (Id n) = map_of d (Id n)"
        using Cons.IH [of d] dk by blast
      have same: "\<And>k. Info k \<in> set (key # keys) \<and> wards_contains W k
                    \<longleftrightarrow> Info k \<in> set keys \<and> wards_contains W k"
        using Info False by auto
      have "resolve_keys W (key # keys) d = Inr d'"
        using Info False d'(1) by simp
      then show ?thesis
        unfolding same using d'(2,3,4) by (intro exI [of _ d']) simp
    next
      case True
      let ?idx = "ix k0"
      have idx: "wards_index W k0 = Inr ?idx" and fresh: "map_of d (Id ?idx) = None"
        using Cons.prems(3) True Info by simp_all
      obtain v where v: "map_of d (Info k0) = Some v"
        using Cons.prems(2) Info by auto
      let ?d1 = "AList.delete (Info k0) (AList.update (Id ?idx) v d)"
      have m1: "map_of ?d1 = (map_of d)(Id ?idx \<mapsto> v, Info k0 := None)"
        by (simp add: delete_conv' update_conv')
      have step: "resolve_keys W (key # keys) d = resolve_keys W keys ?d1"
        using Info True idx fresh v by (simp add: dict_contains_def)
      have other: "ix k \<noteq> ?idx" if "Info k \<in> set keys" "wards_contains W k" for k
      proof
        assume "ix k = ?idx"
        moreover have "k \<in> {k. Info k \<in> set (key # keys) \<and> wards_contains W k}"
          using that by simp
        moreover have "k0 \<in> {k. Info k \<in> set (key # keys) \<and> wards_contains W k}"
          using Info True by simp
        ultimately have "k = k0" using Cons.prems(4) by (auto dest: inj_onD)
        with that(1) k0_notin show False by simp
      qed
      have p2: "\<forall>k. Info k \<in> set keys \<longrightarrow> map_of ?d1 (Info k) \<noteq> None"
      proof (intro allI impI)
        fix k assume k: "Info k \<in> set keys"
        then have "k \<noteq> k0" using k0_notin by auto
        with k Cons.prems(2) show "map_of ?d1 (Info k) \<noteq> None"
          unfolding m1 by simp
      qed
      have p3: "\<forall>k. Info k \<in> set keys \<and> wards_contains W k \<longrightarrow>
           wards_index W k = Inr (ix k) \<and> map_of ?d1 (Id (ix k)) = None"
      proof (intro allI impI)
        fix k assume k: "Info k \<in> set keys \<and> wards_contains W k"
        then have "ix k \<noteq> ?idx" using other by simp
        moreover from k Cons.prems(3) have "wards_index W k = Inr (ix k)"
          "map_of d (Id (ix k)) = None" by simp_all
        ultimately show "wards_index W k = Inr (ix k) \<and> map_of ?d1 (Id (ix k)) = None"
          unfolding m1 by simp
      qed
      have p4: "inj_on ix {k. Info k \<in> set keys \<and> wards_contains W k}"
        by (rule inj_on_subset [OF Cons.prems(4)]) auto
      obtain d' where d': "resolve_keys W keys ?d1 = Inr d'"
        and c1: "\<forall>k. Info k \<in> set keys \<and> wards_contains W k \<longrightarrow>
            map_of d' (Id (ix k)) = map_of ?d1 (Info k) \<and> map_of d' (Info k) = None"
        and c2: "\<forall>k. \<not> (Info k \<in> set keys \<and> wards_contains W k) \<longrightarrow>
            map_of d' (Info k) = map_of ?d1 (Info k)"
        and c3: "\<forall>n. (\<forall>k. Info k \<in> set keys \<and> wards_contains W k \<longrightarrow> ix k \<noteq> n) \<longrightarrow>
            map_of d' (Id n) = map_of ?d1 (Id n)"
        using Cons.IH [of ?d1, OF dk p2 p3 p4] by blast
      have r1: "map_of d' (Id (ix k)) = map_of d (Info k) \<and> map_of d' (Info k) = None"
        if "Info k \<in> set (key # keys) \<and> wards_contains W k" for k
      proof (cases "k = k0")
        case True
        have "map_of d' (Id ?idx) = map_of ?d1 (Id ?idx)"
          using c3 other by blast
        then have "map_of d' (Id ?idx) = Some v" unfolding m1 by simp
        moreover have "map_of d' (Info k0) = map_of ?d1 (Info k0)"
          using c2 k0_notin by blast
        then have "map_of d' (Info k0) = None" unfolding m1 by simp
        ultimately show ?thesis using True v by simp
      next
        case False
        with that Info have k: "Info k \<in> set keys \<and> wards_contains W k" by auto
        with c1 have "map_of d' (Id (ix k)) = map_of ?d1 (Info k)" "map_of d' (Info k) = None"
          by simp_all
        moreover have "map_of ?d1 (Info k) = map_of d (Info k)"
          unfolding m1 using False by simp
        ultimately show ?thesis by simp
      qed
      have r2: "map_of d' (Info k) = map_of d (Info k)"
        if "\<not> (Info k \<in> set (key # keys) \<and> wards_contains W k)" for k
      proof -
        from that Info True have ne: "k \<noteq> k0" by auto
        from that have "\<not> (Info k \<in> set keys \<and> wards_contains W k)" by auto
        with c2 have "map_of d' (Info k) = map_of ?d1 (Info k)" by simp
        also have "\<dots> = map_of d (Info k)" unfolding m1 using ne by simp
        finally show ?thesis .
      qed
      have r3: "map_of d' (Id n) = map_of d (Id n)"
        if "\<forall>k. Info k \<in> set (key # keys) \<and> wards_contains W k \<longrightarrow> ix k \<noteq> n" for n
      proof -
        from that Info True have ne: "n \<noteq> ?idx" by auto
        from that have "\<forall>k. Info k \<in> set keys \<and> wards_contains W k \<longrightarrow> ix k \<noteq> n" by auto
        with c3 have "map_of d' (Id n) = map_of ?d1 (Id n)" by simp
        also have "\<dots> = map_of d (Id n)" unfolding m1 using ne by simp
        finally show ?thesis .
      qed
      from step d' have "resolve_keys W (key # keys) d = Inr d'" by simp
      with r1 r2 r3 show ?thesis by blast
    qed
  qed
qed

lemma resolve_basic:
  "resolve self Not_Wards = Inl TypeError \<and>
   ((\<forall>k. Info k \<in> set (dict_keys (workers self)) \<union> set (dict_keys (players self))
          \<longrightarrow> \<not> wards_contains W k)
      \<longrightarrow> resolve self (Wards W) = Inr self) \<and>
   (\<forall>k idx. wards_contains W k \<and> wards_index W k = Inr idx \<and>
        (Info k \<in> set (dict_keys (workers self)) \<and> Id idx \<in> set (dict_keys (workers self)) \<or>
         Info k \<in> set (dict_keys (players self)) \<and> Id idx \<in> set (dict_keys (players self)))
      \<longrightarrow> (\<exists>e. resolve self (Wards W) = Inl e)) \<and>
   (\<forall>self'. resolve self (Wards W) = Inr self' \<longrightarrow>
      (\<forall>k. Info k \<in> set (dict_keys (workers self')) \<union> set (dict_keys (players self'))
            \<longrightarrow> \<not> wards_contains W k) \<and>
      ((\<forall>k. Info k \<in> set (dict_keys (workers self)) \<union> set (dict_keys (players self))
            \<longrightarrow> wards_contains W k)
         \<longrightarrow> list_all is_int (dict_keys (workers self')) \<and>
             list_all is_int (dict_keys (players self'))))"
proof (intro conjI allI impI)
  show "resolve self Not_Wards = Inl TypeError"
    by (simp add: resolve_def)
next
  assume a: "\<forall>k. Info k \<in> set (dict_keys (workers self)) \<union> set (dict_keys (players self))
          \<longrightarrow> \<not> wards_contains W k"
  have "resolve_keys W (dict_keys (workers self)) (workers self) = Inr (workers self)"
    by (rule resolve_keys_absent) (use a in simp)
  moreover have "resolve_keys W (dict_keys (players self)) (players self) = Inr (players self)"
    by (rule resolve_keys_absent) (use a in simp)
  ultimately show "resolve self (Wards W) = Inr self"
    by (simp add: resolve_def)
next
  fix k idx
  assume a: "wards_contains W k \<and> wards_index W k = Inr idx \<and>
        (Info k \<in> set (dict_keys (workers self)) \<and> Id idx \<in> set (dict_keys (workers self)) \<or>
         Info k \<in> set (dict_keys (players self)) \<and> Id idx \<in> set (dict_keys (players self)))"
  then have c: "wards_contains W k" and i: "wards_index W k = Inr idx"
    by simp_all
  from a consider
      "Info k \<in> set (dict_keys (workers self))" "Id idx \<in> set (dict_keys (workers self))"
    | "Info k \<in> set (dict_keys (players self))" "Id idx \<in> set (dict_keys (players self))"
    by blast
  then show "\<exists>e. resolve self (Wards W) = Inl e"
  proof cases
    case 1
    from 1(2) have "Id idx \<in> dom (map_of (workers self))"
      by (simp only: dict_keys_dom)
    from resolve_keys_collision [OF 1(1) c i this]
    obtain e where "resolve_keys W (dict_keys (workers self)) (workers self) = Inl e" ..
    then show ?thesis by (simp add: resolve_def)
  next
    case 2
    from 2(2) have "Id idx \<in> dom (map_of (players self))"
      by (simp only: dict_keys_dom)
    from resolve_keys_collision [OF 2(1) c i this]
    obtain e where e: "resolve_keys W (dict_keys (players self)) (players self) = Inl e" ..
    show ?thesis
    proof (cases "resolve_keys W (dict_keys (workers self)) (workers self)")
      case (Inl e')
      then show ?thesis by (simp add: resolve_def)
    next
      case (Inr ws)
      with e show ?thesis by (simp add: resolve_def)
    qed
  qed
next
  fix self' k
  assume r: "resolve self (Wards W) = Inr self'"
    and k: "Info k \<in> set (dict_keys (workers self')) \<union> set (dict_keys (players self'))"
  from resolve_remaining [OF r k] show "\<not> wards_contains W k" ..
next
  fix self'
  assume r: "resolve self (Wards W) = Inr self'"
    and all: "\<forall>k. Info k \<in> set (dict_keys (workers self)) \<union> set (dict_keys (players self))
            \<longrightarrow> wards_contains W k"
  have "is_int x" if "x \<in> set (dict_keys (workers self')) \<union> set (dict_keys (players self'))" for x
  proof (cases x)
    case (Id n)
    then show ?thesis by simp
  next
    case (Info k)
    with that have "Info k \<in> set (dict_keys (workers self')) \<union> set (dict_keys (players self'))"
      by simp
    from resolve_remaining [OF r this] have "\<not> wards_contains W k"
      and "Info k \<in> set (dict_keys (workers self)) \<union> set (dict_keys (players self))"
      by simp_all
    with all show ?thesis by blast
  qed
  then show "list_all is_int (dict_keys (workers self'))"
    "list_all is_int (dict_keys (players self'))"
    by (simp_all add: list_all_iff)
qed

lemma resolve_fails_workers:
  "resolve_keys W (dict_keys (workers self)) (workers self) = Inl e \<Longrightarrow>
     \<exists>e'. resolve self (Wards W) = Inl e'"
  by (simp add: resolve_def)

lemma resolve_fails_players:
  "resolve_keys W (dict_keys (players self)) (players self) = Inl e \<Longrightarrow>
     \<exists>e'. resolve self (Wards W) = Inl e'"
  by (cases "resolve_keys W (dict_keys (workers self)) (workers self)")
    (simp_all add: resolve_def)

lemma resolve_keys_kept:
  assumes "distinct (dict_keys d)"
    and "\<forall>k. Info k \<in> set (dict_keys d) \<and> wards_contains W k \<longrightarrow>
           wards_index W k = Inr (ix k) \<and> Id (ix k) \<notin> set (dict_keys d)"
    and "inj_on ix {k. Info k \<in> set (dict_keys d) \<and> wards_contains W k}"
  shows "\<exists>d'. resolve_keys W (dict_keys d) d = Inr d' \<and>
     (\<forall>k. map_of d' (Info k) = (if wards_contains W k then None else map_of d (Info k))) \<and>
     (\<forall>k. Info k \<in> set (dict_keys d) \<and> wards_contains W k \<longrightarrow>
          map_of d' (Id (ix k)) = map_of d (Info k)) \<and>
     (\<forall>n. (\<forall>k. Info k \<in> set (dict_keys d) \<and> wards_contains W k \<longrightarrow> ix k \<noteq> n) \<longrightarrow>
          map_of d' (Id n) = map_of d (Id n))"
proof -
  have p2: "\<forall>k. Info k \<in> set (dict_keys d) \<longrightarrow> map_of d (Info k) \<noteq> None"
    by (auto simp: dict_keys_dom)
  have p3: "\<forall>k. Info k \<in> set (dict_keys d) \<and> wards_contains W k \<longrightarrow>
           wards_index W k = Inr (ix k) \<and> map_of d (Id (ix k)) = None"
  proof (intro allI impI)
    fix k assume k: "Info k \<in> set (dict_keys d) \<and> wards_contains W k"
    with assms(2) have "wards_index W k = Inr (ix k)" "Id (ix k) \<notin> set (dict_keys d)"
      by simp_all
    then show "wards_index W k = Inr (ix k) \<and> map_of d (Id (ix k)) = None"
      by (auto simp: dict_keys_dom)
  qed
  from resolve_keys_success [OF assms(1) p2 p3 assms(3)]
  obtain d' where d': "resolve_keys W (dict_keys d) d = Inr d'"
    and c1: "\<forall>k. Info k \<in> set (dict_keys d) \<and> wards_contains W k \<longrightarrow>
          map_of d' (Id (ix k)) = map_of d (Info k) \<and> map_of d' (Info k) = None"
    and c2: "\<forall>k. \<not> (Info k \<in> set (dict_keys d) \<and> wards_contains W k) \<longrightarrow>
          map_of d' (Info k) = map_of d (Info k)"
    and c3: "\<forall>n. (\<forall>k. Info k \<in> set (dict_keys d) \<and> wards_contains W k \<longrightarrow> ix k \<noteq> n) \<longrightarrow>
          map_of d' (Id n) = map_of d (Id n)"
    by blast
  have "map_of d' (Info k) = (if wards_contains W k then None else map_of d (Info k))" for k
  proof (cases "Info k \<in> set (dict_keys d)")
    case True
    with c1 c2 show ?thesis by (cases "wards_contains W k") simp_all
  next
    case False
    then have "map_of d (Info k) = None" by (auto simp: dict_keys_dom)
    moreover from False c2 have "map_of d' (Info k) = map_of d (Info k)" by simp
    ultimately show ?thesis by simp
  qed
  with d' c1 c3 show ?thesis by blast
qed

text \<open>
  Claim C3, as stated: \<^verbatim>\<open>resolve\<close> fails when a WardInfo key of the workers or players
  map is not in the Wards collection. It does not: the Ward below links to a WardInfo
  that the collection does not hold, and \<^verbatim>\<open>resolve\<close> returns with the Ward unchanged,
  the key still a WardInfo.
\<close>

theorem resolve_missing_key_kept:
  "resolve
     \<lparr>ward_id = Some 1, info = ''a'', workers = [(Info ''b'', 5)], players = [],
      player_total = 1, num_workers = 5, num_players = 0, pos = No_Pos,
      auto_assign_players = True\<rparr>
     (Wards \<lparr>wards_contains = (\<lambda>k. False), wards_index = (\<lambda>k. Inl KeyError)\<rparr>) =
   Inr \<lparr>ward_id = Some 1, info = ''a'', workers = [(Info ''b'', 5)], players = [],
        player_total = 1, num_workers = 5, num_players = 0, pos = No_Pos,
        auto_assign_players = True\<rparr> \<and>
   \<not> is_int (Info ''b'') \<and> \<not> wards_contains \<lparr>wards_contains = (\<lambda>k::string. False),
        wards_index = (\<lambda>k. Inl KeyError)\<rparr> ''b''"
  by (simp add: resolve_def dict_keys_def)

text \<open>
  Claim C3, amended. \<^verbatim>\<open>resolve\<close> raises TypeError when its argument is not a Wards
  collection. A WardInfo key that the collection does not hold is left in place, with
  its value, and never makes \<^verbatim>\<open>resolve\<close> fail: whenever every key that the collection
  does hold has an index, these indices differ from each other within a map and none
  of them is already an integer key of that map, \<^verbatim>\<open>resolve\<close> returns; then each key
  that the collection holds has been replaced by its index, with the same value, each
  key that it does not hold and each integer key is as before, and nothing else of the
  Ward has changed. In particular, when the collection holds none of the keys the Ward
  is returned unchanged. \<^verbatim>\<open>resolve\<close> fails when the index of a key that the collection
  holds is already an integer key of the same map, when two such keys of a map have the
  same index, or when looking the index up raises. When it returns, the WardInfo keys
  left in the two maps are keys that the collection does not hold; so if it holds every
  WardInfo key of the Ward, every key of both maps is an integer id.
\<close>

theorem resolve_spec:
  "resolve self Not_Wards = Inl TypeError \<and>
   ((\<forall>k. Info k \<in> set (dict_keys (workers self)) \<union> set (dict_keys (players self))
          \<longrightarrow> \<not> wards_contains W k)
      \<longrightarrow> resolve self (Wards W) = Inr self) \<and>
   (\<forall>k idx. wards_contains W k \<and> wards_index W k = Inr idx \<and>
        (Info k \<in> set (dict_keys (workers self)) \<and> Id idx \<in> set (dict_keys (workers self)) \<or>
         Info k \<in> set (dict_keys (players self)) \<and> Id idx \<in> set (dict_keys (players self)))
      \<longrightarrow> (\<exists>e. resolve self (Wards W) = Inl e)) \<and>
   (\<forall>self'. resolve self (Wards W) = Inr self' \<longrightarrow>
      (\<forall>k. Info k \<in> set (dict_keys (workers self')) \<union> set (dict_keys (players self'))
            \<longrightarrow> \<not> wards_contains W k) \<and>
      ((\<forall>k. Info k \<in> set (dict_keys (workers self)) \<union> set (dict_keys (players self))
            \<longrightarrow> wards_contains W k)
         \<longrightarrow> list_all is_int (dict_keys (workers self')) \<and>
             list_all is_int (dict_keys (players self')))) \<and>
   (\<forall>k e. wards_contains W k \<and> wards_index W k = Inl e \<and>
        Info k \<in> set (dict_keys (workers self)) \<union> set (dict_keys (players self))
      \<longrightarrow> (\<exists>e'. resolve self (Wards W) = Inl e')) \<and>
   (\<forall>k1 k2 idx. k1 \<noteq> k2 \<and> wards_contains W k1 \<and> wards_contains W k2 \<and>
        wards_index W k1 = Inr idx \<and> wards_index W k2 = Inr idx \<and>
        (Info k1 \<in> set (dict_keys (workers self)) \<and> Info k2 \<in> set (dict_keys (workers self)) \<or>
         Info k1 \<in> set (dict_keys (players self)) \<and> Info k2 \<in> set (dict_keys (players self)))
      \<longrightarrow> (\<exists>e. resolve self (Wards W) = Inl e)) \<and>
   (distinct (dict_keys (workers self)) \<and> distinct (dict_keys (players self)) \<and>
    (\<forall>k. Info k \<in> set (dict_keys (workers self)) \<and> wards_contains W k \<longrightarrow>
         wards_index W k = Inr (ix k) \<and> Id (ix k) \<notin> set (dict_keys (workers self))) \<and>
    (\<forall>k. Info k \<in> set (dict_keys (players self)) \<and> wards_contains W k \<longrightarrow>
         wards_index W k = Inr (ix k) \<and> Id (ix k) \<notin> set (dict_keys (players self))) \<and>
    inj_on ix {k. Info k \<in> set (dict_keys (workers self)) \<and> wards_contains W k} \<and>
    inj_on ix {k. Info k \<in> set (dict_keys (players self)) \<and> wards_contains W k}
      \<longrightarrow> (\<exists>self'. resolve self (Wards W) = Inr self' \<and>
            self' = self\<lparr>workers := workers self', players := players self'\<rparr> \<and>
            (\<forall>k. map_of (workers self') (Info k) =
                   (if wards_contains W k then None else map_of (workers self) (Info k))) \<and>
            (\<forall>k. map_of (players self') (Info k) =
                   (if wards_contains W k then None else map_of (players self) (Info k))) \<and>
            (\<forall>k. Info k \<in> set (dict_keys (workers self)) \<and> wards_contains W k \<longrightarrow>
                   map_of (workers self') (Id (ix k)) = map_of (workers self) (Info k)) \<and>
            (\<forall>k. Info k \<in> set (dict_keys (players self)) \<and> wards_contains W k \<longrightarrow>
                   map_of (players self') (Id (ix k)) = map_of (players self) (Info k)) \<and>
            (\<forall>n. (\<forall>k. Info k \<in> set (dict_keys (workers self)) \<and> wards_contains W k
                        \<longrightarrow> ix k \<noteq> n) \<longrightarrow>
                   map_of (workers self') (Id n) = map_of (workers self) (Id n)) \<and>
            (\<forall>n. (\<forall>k. Info k \<in> set (dict_keys (players self)) \<and> wards_contains W k
                        \<longrightarrow> ix k \<noteq> n) \<longrightarrow>
                   map_of (players self') (Id n) = map_of (players self) (Id n))))"
proof -
  note b = resolve_basic [of self W]
  have raises: "\<exists>e'. resolve self (Wards W) = Inl e'"
    if "wards_contains W k \<and> wards_index W k = Inl e \<and>
        Info k \<in> set (dict_keys (workers self)) \<union> set (dict_keys (players self))" for k e
  proof -
    from that have c: "wards_contains W k" and i: "wards_index W k = Inl e" by simp_all
    from that consider "Info k \<in> set (dict_keys (workers self))"
      | "Info k \<in> set (dict_keys (players self))" by blast
    then show ?thesis
    proof cases
      case 1
      from resolve_keys_index_raises [OF 1 c i]
      obtain e1 where "resolve_keys W (dict_keys (workers self)) (workers self) = Inl e1" ..
      then show ?thesis by (rule resolve_fails_workers)
    next
      case 2
      from resolve_keys_index_raises [OF 2 c i]
      obtain e1 where "resolve_keys W (dict_keys (players self)) (players self) = Inl e1" ..
      then show ?thesis by (rule resolve_fails_players)
    qed
  qed
  have dup: "\<exists>e. resolve self (Wards W) = Inl e"
    if "k1 \<noteq> k2 \<and> wards_contains W k1 \<and> wards_contains W k2 \<and>
        wards_index W k1 = Inr idx \<and> wards_index W k2 = Inr idx \<and>
        (Info k1 \<in> set (dict_keys (workers self)) \<and> Info k2 \<in> set (dict_keys (workers self)) \<or>
         Info k1 \<in> set (dict_keys (players self)) \<and> Info k2 \<in> set (dict_keys (players self)))"
    for k1 k2 idx
  proof -
    from that have ne: "k1 \<noteq> k2" and c1: "wards_contains W k1" and c2: "wards_contains W k2"
      and i1: "wards_index W k1 = Inr idx" and i2: "wards_index W k2 = Inr idx"
      by simp_all
    from that consider
        "Info k1 \<in> set (dict_keys (workers self))" "Info k2 \<in> set (dict_keys (workers self))"
      | "Info k1 \<in> set (dict_keys (players self))" "Info k2 \<in> set (dict_keys (players self))"
      by blast
    then show ?thesis
    proof cases
      case 1
      from resolve_keys_duplicate [OF 1(1) 1(2) ne c1 c2 i1 i2]
      obtain e1 where "resolve_keys W (dict_keys (workers self)) (workers self) = Inl e1" ..
      then show ?thesis by (rule resolve_fails_workers)
    next
      case 2
      from resolve_keys_duplicate [OF 2(1) 2(2) ne c1 c2 i1 i2]
      obtain e1 where "resolve_keys W (dict_keys (players self)) (players self) = Inl e1" ..
      then show ?thesis by (rule resolve_fails_players)
    qed
  qed
  have succ: "\<exists>self'. resolve self (Wards W) = Inr self' \<and>
            self' = self\<lparr>workers := workers self', players := players self'\<rparr> \<and>
            (\<forall>k. map_of (workers self') (Info k) =
                   (if wards_contains W k then None else map_of (workers self) (Info k))) \<and>
            (\<forall>k. map_of (players self') (Info k) =
                   (if wards_contains W k then None else map_of (players self) (Info k))) \<and>
            (\<forall>k. Info k \<in> set (dict_keys (workers self)) \<and> wards_contains W k \<longrightarrow>
                   map_of (workers self') (Id (ix k)) = map_of (workers self) (Info k)) \<and>
            (\<forall>k. Info k \<in> set (dict_keys (players self)) \<and> wards_contains W k \<longrightarrow>
                   map_of (players self') (Id (ix k)) = map_of (players self) (Info k)) \<and>
            (\<forall>n. (\<forall>k. Info k \<in> set (dict_keys (workers self)) \<and> wards_contains W k
                        \<longrightarrow> ix k \<noteq> n) \<longrightarrow>
                   map_of (workers self') (Id n) = map_of (workers self) (Id n)) \<and>
            (\<forall>n. (\<forall>k. Info k \<in> set (dict_keys (players self)) \<and> wards_contains W k
                        \<longrightarrow> ix k \<noteq> n) \<longrightarrow>
                   map_of (players self') (Id n) = map_of (players self) (Id n))"
    if h: "distinct (dict_keys (workers self)) \<and> distinct (dict_keys (players self)) \<and>
    (\<forall>k. Info k \<in> set (dict_keys (workers self)) \<and> wards_contains W k \<longrightarrow>
         wards_index W k = Inr (ix k) \<and> Id (ix k) \<notin> set (dict_keys (workers self))) \<and>
    (\<forall>k. Info k \<in> set (dict_keys (players self)) \<and> wards_contains W k \<longrightarrow>
         wards_index W k = Inr (ix k) \<and> Id (ix k) \<notin> set (dict_keys (players self))) \<and>
    inj_on ix {k. Info k \<in> set (dict_keys (workers self)) \<and> wards_contains W k} \<and>
    inj_on ix {k. Info k \<in> set (dict_keys (players self)) \<and> wards_contains W k}"
  proof -
    from h have dw: "distinct (dict_keys (workers self))"
      and dp: "distinct (dict_keys (players self))"
      and iw: "\<forall>k. Info k \<in> set (dict_keys (workers self)) \<and> wards_contains W k \<longrightarrow>
         wards_index W k = Inr (ix k) \<and> Id (ix k) \<notin> set (dict_keys (workers self))"
      and ip: "\<forall>k. Info k \<in> set (dict_keys (players self)) \<and> wards_contains W k \<longrightarrow>
         wards_index W k = Inr (ix k) \<and> Id (ix k) \<notin> set (dict_keys (players self))"
      and jw: "inj_on ix {k. Info k \<in> set (dict_keys (workers self)) \<and> wards_contains W k}"
      and jp: "inj_on ix {k. Info k \<in> set (dict_keys (players self)) \<and> wards_contains W k}"
      by simp_all
    from resolve_keys_kept [OF dw iw jw] obtain ws where
      ws: "resolve_keys W (dict_keys (workers self)) (workers self) = Inr ws"
      and w1: "\<forall>k. map_of ws (Info k) =
                 (if wards_contains W k then None else map_of (workers self) (Info k))"
      and w2: "\<forall>k. Info k \<in> set (dict_keys (workers self)) \<and> wards_contains W k \<longrightarrow>
                 map_of ws (Id (ix k)) = map_of (workers self) (Info k)"
      and w3: "\<forall>n. (\<forall>k. Info k \<in> set (dict_keys (workers self)) \<and> wards_contains W k
                        \<longrightarrow> ix k \<noteq> n) \<longrightarrow> map_of ws (Id n) = map_of (workers self) (Id n)"
      by blast
    from resolve_keys_kept [OF dp ip jp] obtain ps where
      ps: "resolve_keys W (dict_keys (players self)) (players self) = Inr ps"
      and p1: "\<forall>k. map_of ps (Info k) =
                 (if wards_contains W k then None else map_of (players self) (Info k))"
      and p2: "\<forall>k. Info k \<in> set (dict_keys (players self)) \<and> wards_contains W k \<longrightarrow>
                 map_of ps (Id (ix k)) = map_of (players self) (Info k)"
      and p3: "\<forall>n. (\<forall>k. Info k \<in> set (dict_keys (players self)) \<and> wards_contains W k
                        \<longrightarrow> ix k \<noteq> n) \<longrightarrow> map_of ps (Id n) = map_of (players self) (Id n)"
      by blast
    let ?s = "self\<lparr>workers := ws, players := ps\<rparr>"
    have r: "resolve self (Wards W) = Inr ?s"
      using ws ps by (simp add: resolve_def)
    show ?thesis
    proof (intro exI [of _ ?s] conjI)
      show "resolve self (Wards W) = Inr ?s" by (rule r)
      show "?s = self\<lparr>workers := workers ?s, players := players ?s\<rparr>" by simp
      show "\<forall>k. map_of (workers ?s) (Info k) =
                   (if wards_contains W k then None else map_of (workers self) (Info k))"
        using w1 by simp
      show "\<forall>k. map_of (players ?s) (Info k) =
                   (if wards_contains W k then None else map_of (players self) (Info k))"
        using p1 by simp
      show "\<forall>k. Info k \<in> set (dict_keys (workers self)) \<and> wards_contains W k \<longrightarrow>
                   map_of (workers ?s) (Id (ix k)) = map_of (workers self) (Info k)"
        using w2 by simp
      show "\<forall>k. Info k \<in> set (dict_keys (players self)) \<and> wards_contains W k \<longrightarrow>
                   map_of (players ?s) (Id (ix k)) = map_of (players self) (Info k)"
        using p2 by simp
      show "\<forall>n. (\<forall>k. Info k \<in> set (dict_keys (workers self)) \<and> wards_contains W k
                        \<longrightarrow> ix k \<noteq> n) \<longrightarrow>
                   map_of (workers ?s) (Id n) = map_of (workers self) (Id n)"
        using w3 by simp
      show "\<forall>n. (\<forall>k. Info k \<in> set (dict_keys (players self)) \<and> wards_contains W k
                        \<longrightarrow> ix k \<noteq> n) \<longrightarrow>
                   map_of (players ?s) (Id n) = map_of (players self) (Id n)"
        using p3 by simp
    qed
  qed
  show ?thesis
    apply (intro conjI)
          apply (rule b [THEN conjunct1])
         apply (rule b [THEN conjunct2, THEN conjunct1])
        apply (rule b [THEN conjunct2, THEN conjunct2, THEN conjunct1])
       apply (rule b [THEN conjunct2, THEN conjunct2, THEN conjunct2])
      apply (intro allI impI, erule raises)
     apply (intro allI impI, erule dup)
    apply (intro impI, erule succ)
    done
qed

theorem resolve_spec_witness:
  "(\<exists>e. resolve
     \<lparr>ward_id = Some 1, info = ''a'', workers = [(Info ''b'', 5), (Id 2, 1)], players = [],
      player_total = 1, num_workers = 6, num_players = 0, pos = No_Pos,
      auto_assign_players = True\<rparr>
     (Wards \<lparr>wards_contains = (\<lambda>k. k = ''b''), wards_index = (\<lambda>k. Inr 2)\<rparr>) = Inl e) \<and>
   resolve
     \<lparr>ward_id = Some 1, info = ''a'', workers = [(Info ''b'', 5), (Id 2, 1)], players = [],
      player_total = 1, num_workers = 6, num_players = 0, pos = No_Pos,
      auto_assign_players = True\<rparr>
     (Wards \<lparr>wards_contains = (\<lambda>k. False), wards_index = (\<lambda>k. Inr 3)\<rparr>) =
   Inr \<lparr>ward_id = Some 1, info = ''a'', workers = [(Info ''b'', 5), (Id 2, 1)], players = [],
      player_total = 1, num_workers = 6, num_players = 0, pos = No_Pos,
      auto_assign_players = True\<rparr> \<and>
   (\<exists>self'. resolve
     \<lparr>ward_id = Some 1, info = ''a'', workers = [(Info ''b'', 5), (Info ''c'', 7)],
      players = [(Info ''c'', 1 / 2)],
      player_total = 1 / 2, num_workers = 12, num_players = 0, pos = No_Pos,
      auto_assign_players = True\<rparr>
     (Wards \<lparr>wards_contains = (\<lambda>k. k = ''b''), wards_index = (\<lambda>k. Inr 3)\<rparr>) = Inr self' \<and>
     map_of (workers self') (Id 3) = Some 5 \<and> map_of (workers self') (Info ''b'') = None \<and>
     map_of (workers self') (Info ''c'') = Some 7 \<and>
     map_of (players self') (Info ''c'') = Some (1 / 2))"
proof -
  let ?self = "\<lparr>ward_id = Some 1, info = ''a'', workers = [(Info ''b'', 5), (Id 2, 1)],
      players = [], player_total = 1, num_workers = 6, num_players = 0, pos = No_Pos,
      auto_assign_players = True\<rparr> :: string ward"
  let ?mixed = "\<lparr>ward_id = Some 1, info = ''a'', workers = [(Info ''b'', 5), (Info ''c'', 7)],
      players = [(Info ''c'', 1 / 2)],
      player_total = 1 / 2, num_workers = 12, num_players = 0, pos = No_Pos,
      auto_assign_players = True\<rparr> :: string ward"
  let ?W2 = "\<lparr>wards_contains = (\<lambda>k. k = ''b''), wards_index = (\<lambda>k. Inr 2)\<rparr> :: string wards"
  let ?W3 = "\<lparr>wards_contains = (\<lambda>k. k = ''b''), wards_index = (\<lambda>k. Inr 3)\<rparr> :: string wards"
  let ?W0 = "\<lparr>wards_contains = (\<lambda>k. False), wards_index = (\<lambda>k. Inr 3)\<rparr> :: string wards"
  have p2: "wards_contains ?W2 ''b'' \<and> wards_index ?W2 ''b'' = Inr 2 \<and>
        (Info ''b'' \<in> set (dict_keys (workers ?self)) \<and> Id 2 \<in> set (dict_keys (workers ?self)) \<or>
         Info ''b'' \<in> set (dict_keys (players ?self)) \<and> Id 2 \<in> set (dict_keys (players ?self)))"
    by (simp add: dict_keys_def)
  have a: "\<exists>e. resolve ?self (Wards ?W2) = Inl e"
    by (rule resolve_spec [where self = ?self and W = ?W2, THEN conjunct2, THEN conjunct2,
          THEN conjunct1, THEN spec, THEN spec, THEN mp, OF p2])
  have p0: "\<forall>k. Info k \<in> set (dict_keys (workers ?self)) \<union> set (dict_keys (players ?self))
          \<longrightarrow> \<not> wards_contains ?W0 k"
    by simp
  have c: "resolve ?self (Wards ?W0) = Inr ?self"
    by (rule resolve_spec [where self = ?self and W = ?W0, THEN conjunct2, THEN conjunct1,
          THEN mp, OF p0])
  have p3: "distinct (dict_keys (workers ?mixed)) \<and> distinct (dict_keys (players ?mixed)) \<and>
    (\<forall>k. Info k \<in> set (dict_keys (workers ?mixed)) \<and> wards_contains ?W3 k \<longrightarrow>
         wards_index ?W3 k = Inr ((\<lambda>k. 3) k) \<and>
         Id ((\<lambda>k. 3) k) \<notin> set (dict_keys (workers ?mixed))) \<and>
    (\<forall>k. Info k \<in> set (dict_keys (players ?mixed)) \<and> wards_contains ?W3 k \<longrightarrow>
         wards_index ?W3 k = Inr ((\<lambda>k. 3) k) \<and>
         Id ((\<lambda>k. 3) k) \<notin> set (dict_keys (players ?mixed))) \<and>
    inj_on (\<lambda>k. 3 :: int) {k. Info k \<in> set (dict_keys (workers ?mixed)) \<and> wards_contains ?W3 k} \<and>
    inj_on (\<lambda>k. 3 :: int) {k. Info k \<in> set (dict_keys (players ?mixed)) \<and> wards_contains ?W3 k}"
    by (auto simp: dict_keys_def inj_on_def)
  from resolve_spec [where self = ?mixed and W = ?W3 and ix = "\<lambda>k. 3",
      THEN conjunct2, THEN conjunct2, THEN conjunct2, THEN conjunct2, THEN conjunct2,
      THEN conjunct2, THEN mp, OF p3]
  obtain self' where r: "resolve ?mixed (Wards ?W3) = Inr self'"
    and w1: "\<forall>k. map_of (workers self') (Info k) =
               (if wards_contains ?W3 k then None else map_of (workers ?mixed) (Info k))"
    and q1: "\<forall>k. map_of (players self') (Info k) =
               (if wards_contains ?W3 k then None else map_of (players ?mixed) (Info k))"
    and w2: "\<forall>k. Info k \<in> set (dict_keys (workers ?mixed)) \<and> wards_contains ?W3 k \<longrightarrow>
               map_of (workers self') (Id 3) = map_of (workers ?mixed) (Info k)"
    by blast
  from w2 [THEN spec, of "''b''"] have "map_of (workers self') (Id 3) = Some 5"
    by (simp add: dict_keys_def)
  moreover from w1 [THEN spec, of "''b''"] have "map_of (workers self') (Info ''b'') = None"
    by simp
  moreover from w1 [THEN spec, of "''c''"] have "map_of (workers self') (Info ''c'') = Some 7"
    by simp
  moreover from q1 [THEN spec, of "''c''"] have "map_of (players self') (Info ''c'') = Some (1 / 2)"
    by simp
  ultimately have m: "\<exists>self'. resolve ?mixed (Wards ?W3) = Inr self' \<and>
     map_of (workers self') (Id 3) = Some 5 \<and> map_of (workers self') (Info ''b'') = None \<and>
     map_of (workers self') (Info ''c'') = Some 7 \<and>
     map_of (players self') (Info ''c'') = Some (1 / 2)"
    using r by (intro exI [of _ self']) simp
  from a c m show ?thesis by (intro conjI)
qed

end
